theory Spec2Isabelle
  imports Complex_Main "HOL-Library.Sublist" "HOL-Library.Multiset"
begin

section \<open>The reminder store of \<open>assgn-1.ts\<close>\<close>

text \<open>
  The class \<open>ReminderDatabase\<close> keeps a JavaScript \<open>Map\<close> from id strings to
  \<open>Reminder\<close> objects, rewrites one JSON file after every mutation and loads that
  file in its constructor. Everything the methods touch beyond their arguments is
  made explicit in a \<open>state\<close> record: the map, the file name, the file system, and
  the values \<open>Math.random()\<close> returns.
\<close>

subsection \<open>Data\<close>

text \<open>
  \<open>interface Reminder\<close>. The field \<open>id\<close> is called \<open>id_of\<close> here, since \<open>id\<close> is the
  identity function of HOL.
\<close>

record Reminder =
  id_of :: string
  message :: string
  time :: string
  completed :: bool

text \<open>
  A JavaScript \<open>Map\<close> iterates in insertion order, so it is an association list:
  the list of its entries, oldest key first. A \<open>Map\<close> never holds a key twice
  (\<open>Map_ok\<close>); every operation below keeps that, and \<open>Map_new\<close> establishes it.
\<close>

type_synonym 'v jsmap = "(string \<times> 'v) list"

definition Map_ok :: "'v jsmap \<Rightarrow> bool" where
  "Map_ok m = distinct (map fst m)"

definition Map_has :: "'v jsmap \<Rightarrow> string \<Rightarrow> bool" where
  "Map_has m k = (k \<in> set (map fst m))"

definition Map_get :: "'v jsmap \<Rightarrow> string \<Rightarrow> 'v option" where
  "Map_get m k = map_of m k"

text \<open>
  \<open>Map.prototype.set\<close>: an existing key keeps its place and gets the new value, a
  new key is appended.
\<close>

definition Map_set :: "'v jsmap \<Rightarrow> string \<Rightarrow> 'v \<Rightarrow> 'v jsmap" where
  "Map_set m k v =
     (if Map_has m k then map (\<lambda>(k', v'). if k' = k then (k', v) else (k', v')) m
      else m @ [(k, v)])"

text \<open>
  \<open>Map.prototype.delete\<close> returns whether the key was there, and the map without
  it.
\<close>

definition Map_delete :: "'v jsmap \<Rightarrow> string \<Rightarrow> bool \<times> 'v jsmap" where
  "Map_delete m k = (Map_has m k, filter (\<lambda>(k', v'). k' \<noteq> k) m)"

definition Map_values :: "'v jsmap \<Rightarrow> 'v list" where
  "Map_values m = map snd m"

definition Map_entries :: "'v jsmap \<Rightarrow> (string \<times> 'v) list" where
  "Map_entries m = m"

text \<open>\<open>new Map(data)\<close> sets the entries of \<open>data\<close> one after the other.\<close>

definition Map_new :: "(string \<times> 'v) list \<Rightarrow> 'v jsmap" where
  "Map_new data = foldl (\<lambda>m (k, v). Map_set m k v) [] data"

text \<open>
  An assignment to a field of the object stored under a key, as in
  \<open>this.reminders.get(id)!.completed = true\<close>. The map holds a reference to the
  object, so the entry changes in place. No object is stored under two keys: each
  one comes from its own object literal in \<open>createReminder\<close> or from
  \<open>JSON.parse\<close>.
\<close>

definition assign_field :: "'v jsmap \<Rightarrow> string \<Rightarrow> ('v \<Rightarrow> 'v) \<Rightarrow> 'v jsmap" where
  "assign_field m k f = map (\<lambda>(k', v'). if k' = k then (k', f v') else (k', v')) m"

text \<open>
  What the file named \<open>filename\<close> holds. \<open>fs.readJsonSync\<close> followed by
  \<open>new Map(data)\<close> either throws (the text is not JSON, or the JSON value is not a
  sequence of pairs): \<open>Unreadable\<close>; or it yields the pairs: \<open>Entries\<close>. The file is
  kept as the JSON value it denotes, an array of \<open>[id, Reminder]\<close> pairs whose
  fields have the types the interface declares; \<open>JSON.stringify\<close> and
  \<open>JSON.parse\<close> are inverse on such values. A file that does not exist is
  \<open>None\<close> in the file system.
\<close>

datatype contents = Unreadable | Entries "(string \<times> Reminder) list"

datatype error = TypeError

record state =
  reminders :: "Reminder jsmap"
  filename :: string
  files :: "string \<rightharpoonup> contents"
  math_random :: "nat \<Rightarrow> real"
  drawn :: nat

text \<open>
  \<open>math_random s n\<close> is the value of the \<open>n\<close>-th call of \<open>Math.random()\<close> and
  \<open>drawn s\<close> the number of calls made so far.
\<close>

subsection \<open>Numbers\<close>

text \<open>
  A JavaScript number is an IEEE 754 double, and each arithmetic operation
  returns the exact result rounded to the nearest double, ties to even. \<open>rne\<close>
  rounds a real to the nearest integer, ties to even. \<open>fl64 x\<close> is the double
  nearest to \<open>x\<close>: \<open>x\<close> rounded to a multiple of the unit in its last place, which
  is \<open>2^(e - 52)\<close> for \<open>2^e \<le> |x| < 2^(e + 1)\<close>, and \<open>2^(-1074)\<close> below \<open>2^(-1022)\<close>.
  (Above \<open>2^1024\<close> the result is infinite; no number here comes near.) A double is
  a real that rounding leaves as it is.
\<close>

definition rne :: "real \<Rightarrow> int" where
  "rne t =
     (let n = \<lfloor>t\<rfloor>; f = t - of_int n
      in if f < 1 / 2 then n else if 1 / 2 < f then n + 1 else if even n then n else n + 1)"

definition fl64 :: "real \<Rightarrow> real" where
  "fl64 x =
     (if x = 0 then 0
      else let e = max \<lfloor>log 2 \<bar>x\<bar>\<rfloor> (- 1022); u = 2 powr (of_int e - 52)
           in of_int (rne (x / u)) * u)"

definition is_double :: "real \<Rightarrow> bool" where
  "is_double x = (fl64 x = x)"

text \<open>
  \<open>Math.random()\<close> returns a double \<open>r\<close> with \<open>0 \<le> r < 1\<close>.
\<close>

definition unit_interval :: "(nat \<Rightarrow> real) \<Rightarrow> bool" where
  "unit_interval rnd = (\<forall>n. is_double (rnd n) \<and> 0 \<le> rnd n \<and> rnd n < 1)"

subsection \<open>Number to string\<close>

text \<open>
  \<open>Number.prototype.toString\<close> on an integer below \<open>10^21\<close>: its decimal digits,
  after a minus sign when it is negative.
\<close>

definition digit_char :: "nat \<Rightarrow> char" where
  "digit_char d = ''0123456789'' ! d"

fun toDigits :: "nat \<Rightarrow> string" where
  "toDigits n = (if n < 10 then [digit_char n] else toDigits (n div 10) @ [digit_char (n mod 10)])"

declare toDigits.simps [simp del]

definition toString :: "int \<Rightarrow> string" where
  "toString i = (if i < 0 then CHR ''-'' # toDigits (nat (- i)) else toDigits (nat i))"

text \<open>Reading a decimal numeral back, to say which number a string of digits denotes.\<close>

definition isDigit :: "char \<Rightarrow> bool" where
  "isDigit c = (c \<in> set ''0123456789'')"

definition digit_val :: "char \<Rightarrow> nat" where
  "digit_val c = of_char c - 48"

definition fromDigits :: "string \<Rightarrow> nat" where
  "fromDigits cs = foldl (\<lambda>a c. 10 * a + digit_val c) 0 cs"

subsection \<open>Persistence\<close>

text \<open>
  \<open>saveToFile\<close> writes the entries of the map as the whole content of the file.
  The write is taken to succeed.
\<close>

definition saveToFile :: "state \<Rightarrow> state" where
  "saveToFile s = s\<lparr>files := (files s)(filename s \<mapsto> Entries (Map_entries (reminders s)))\<rparr>"

text \<open>
  \<open>loadFromFile\<close>: nothing happens when the file does not exist; any exception
  of reading it is caught and leaves an empty map.
\<close>

definition loadFromFile :: "state \<Rightarrow> state" where
  "loadFromFile s =
     (case files s (filename s) of
        None \<Rightarrow> s
      | Some Unreadable \<Rightarrow> s\<lparr>reminders := []\<rparr>
      | Some (Entries data) \<Rightarrow> s\<lparr>reminders := Map_new data\<rparr>)"

text \<open>
  The constructor, in a process whose file system is \<open>fs\<close> and whose
  \<open>Math.random()\<close> returns \<open>rnd n\<close>, \<open>rnd (n + 1)\<close>, ...
\<close>

definition constructor :: "string \<Rightarrow> (string \<rightharpoonup> contents) \<Rightarrow> (nat \<Rightarrow> real) \<Rightarrow> nat \<Rightarrow> state" where
  "constructor fname fs rnd n =
     loadFromFile \<lparr>reminders = [], filename = fname, files = fs, math_random = rnd, drawn = n\<rparr>"

subsection \<open>The methods\<close>

text \<open>
  \<open>Math.floor(10000000 + Math.random() * 90000000).toString()\<close>, for the value
  \<open>r\<close> that \<open>Math.random()\<close> returned: the product is rounded, then the sum.
\<close>

definition random_id :: "real \<Rightarrow> string" where
  "random_id r = toString \<lfloor>fl64 (10000000 + fl64 (r * 90000000))\<rfloor>"

text \<open>
  \<open>generateUniqueId\<close> draws until the id is not a key of the map. The loop has no
  bound: when every draw from the \<open>n\<close>-th on hits a key it never returns, which is
  the value \<open>None\<close>. Otherwise it returns the id and the number of draws made so
  far.
\<close>

partial_function (option) generateUniqueId ::
  "Reminder jsmap \<Rightarrow> (nat \<Rightarrow> real) \<Rightarrow> nat \<Rightarrow> (string \<times> nat) option" where
  "generateUniqueId m rnd n =
     (let i = random_id (rnd n)
      in if Map_has m i then generateUniqueId m rnd (Suc n) else Some (i, Suc n))"

definition createReminder :: "state \<Rightarrow> string \<Rightarrow> string \<Rightarrow> (string \<times> state) option" where
  "createReminder s msg tm =
     (case generateUniqueId (reminders s) (math_random s) (drawn s) of
        None \<Rightarrow> None
      | Some (i, n) \<Rightarrow>
          Some (''Reminder created with ID: '' @ i,
                saveToFile (s\<lparr>drawn := n,
                  reminders := Map_set (reminders s) i
                    \<lparr>id_of = i, message = msg, time = tm, completed = False\<rparr>\<rparr>)))"

definition exists_reminder :: "state \<Rightarrow> string \<Rightarrow> bool" where
  "exists_reminder s i = Map_has (reminders s) i"

text \<open>
  \<open>this.reminders.get(id)!\<close>: the \<open>!\<close> is erased by the compiler, and assigning to
  a field of \<open>undefined\<close> throws a \<open>TypeError\<close>.
\<close>

definition markReminderAsCompleted :: "state \<Rightarrow> string \<Rightarrow> error + string \<times> state" where
  "markReminderAsCompleted s i =
     (if \<not> Map_has (reminders s) i then Inr (''Reminder '' @ i @ '' not found.'', s)
      else case Map_get (reminders s) i of
        None \<Rightarrow> Inl TypeError
      | Some r \<Rightarrow>
          Inr (''Reminder '' @ i @ '' marked as completed.'',
               saveToFile (s\<lparr>reminders :=
                 assign_field (reminders s) i (\<lambda>r. r\<lparr>completed := True\<rparr>)\<rparr>)))"

definition unmarkReminderAsCompleted :: "state \<Rightarrow> string \<Rightarrow> error + string \<times> state" where
  "unmarkReminderAsCompleted s i =
     (if \<not> Map_has (reminders s) i then Inr (''Reminder '' @ i @ '' not found.'', s)
      else case Map_get (reminders s) i of
        None \<Rightarrow> Inl TypeError
      | Some r \<Rightarrow>
          Inr (''Reminder '' @ i @ '' unmarked as completed.'',
               saveToFile (s\<lparr>reminders :=
                 assign_field (reminders s) i (\<lambda>r. r\<lparr>completed := False\<rparr>)\<rparr>)))"

definition getAllReminders :: "state \<Rightarrow> Reminder list" where
  "getAllReminders s = Map_values (reminders s)"

text \<open>\<open>get(id) || null\<close>: an object is truthy, so this is the lookup.\<close>

definition getReminder :: "state \<Rightarrow> string \<Rightarrow> Reminder option" where
  "getReminder s i = Map_get (reminders s) i"

definition getAllRemindersMarkedAsCompleted :: "state \<Rightarrow> Reminder list" where
  "getAllRemindersMarkedAsCompleted s = filter (\<lambda>reminder. completed reminder) (Map_values (reminders s))"

definition getAllRemindersNotMarkedAsCompleted :: "state \<Rightarrow> Reminder list" where
  "getAllRemindersNotMarkedAsCompleted s =
     filter (\<lambda>reminder. \<not> completed reminder) (Map_values (reminders s))"

text \<open>
  \<open>if (message)\<close>: an optional string is truthy when it is given and not empty.
  In \<open>updateReminder\<close>, \<open>reminder\<close> is a reference to the object in the map: the
  two assignments change the entry in place, and \<open>set(id, reminder)\<close> then stores
  the object as it is by then, which is the value under the key after the
  assignments.
\<close>

definition truthy :: "string option \<Rightarrow> bool" where
  "truthy x = (case x of None \<Rightarrow> False | Some v \<Rightarrow> v \<noteq> [])"

definition updateReminder ::
  "state \<Rightarrow> string \<Rightarrow> string option \<Rightarrow> string option \<Rightarrow> error + string \<times> state" where
  "updateReminder s i msg tm =
     (if \<not> Map_has (reminders s) i then Inr (''Reminder '' @ i @ '' not found.'', s)
      else case Map_get (reminders s) i of
        None \<Rightarrow> Inl TypeError
      | Some reminder \<Rightarrow>
          let m1 = (if truthy msg
                    then assign_field (reminders s) i (\<lambda>r. r\<lparr>message := the msg\<rparr>)
                    else reminders s);
              m2 = (if truthy tm
                    then assign_field m1 i (\<lambda>r. r\<lparr>time := the tm\<rparr>)
                    else m1)
          in (case Map_get m2 i of
                None \<Rightarrow> Inl TypeError
              | Some reminder' \<Rightarrow>
                  Inr (''Reminder '' @ i @ '' updated.'',
                       saveToFile (s\<lparr>reminders := Map_set m2 i reminder'\<rparr>))))"

definition removeReminder :: "state \<Rightarrow> string \<Rightarrow> string \<times> state" where
  "removeReminder s i =
     (case Map_delete (reminders s) i of
        (False, m) \<Rightarrow> (''Reminder '' @ i @ '' not found.'', s\<lparr>reminders := m\<rparr>)
      | (True, m) \<Rightarrow> (''Reminder '' @ i @ '' deleted.'', saveToFile (s\<lparr>reminders := m\<rparr>)))"

subsection \<open>The due filter\<close>

text \<open>
  \<open>moment\<close> is a library outside the repository, so what it returns is a
  parameter: \<open>moment str\<close> is \<open>None\<close> when \<open>moment(str)\<close> is not valid, and otherwise
  the local time it denotes, in milliseconds on the local time line (a calendar
  day is 86400000 of them). \<open>now\<close> is the local time of the call.
  \<open>isSameOrBefore(input, "day")\<close> is the library's: false when either side is not
  valid, else \<open>isSame\<close> (the input lies between the start and the end of this
  moment's day) or \<open>isBefore\<close> (the end of this moment's day lies before the input).
  \<open>moment().format("YYYY-MM-DD")\<close>, read back as a moment, is the start of the
  current day.
\<close>

definition startOf_day :: "int \<Rightarrow> int" where
  "startOf_day t = t - t mod 86400000"

definition endOf_day :: "int \<Rightarrow> int" where
  "endOf_day t = startOf_day t + 86399999"

definition isSame_day :: "int option \<Rightarrow> int option \<Rightarrow> bool" where
  "isSame_day this input =
     (case (this, input) of
        (Some t, Some inputMs) \<Rightarrow> startOf_day t \<le> inputMs \<and> inputMs \<le> endOf_day t
      | _ \<Rightarrow> False)"

definition isBefore_day :: "int option \<Rightarrow> int option \<Rightarrow> bool" where
  "isBefore_day this input =
     (case (this, input) of
        (Some t, Some inputMs) \<Rightarrow> endOf_day t < inputMs
      | _ \<Rightarrow> False)"

definition isSameOrBefore_day :: "int option \<Rightarrow> int option \<Rightarrow> bool" where
  "isSameOrBefore_day this input = (isSame_day this input \<or> isBefore_day this input)"

definition getAllRemindersDueByToday :: "(string \<Rightarrow> int option) \<Rightarrow> int \<Rightarrow> state \<Rightarrow> Reminder list" where
  "getAllRemindersDueByToday moment now s =
     (let today = Some (startOf_day now)
      in filter (\<lambda>reminder. isSameOrBefore_day (moment (time reminder)) today)
           (Map_values (reminders s)))"

text \<open>
  The calendar day of a local time, and the filter in the specification's words:
  the time parses and its day is on or before the current day.
\<close>

definition day_of :: "int \<Rightarrow> int" where
  "day_of t = t div 86400000"

definition due_by :: "(string \<Rightarrow> int option) \<Rightarrow> int \<Rightarrow> Reminder \<Rightarrow> bool" where
  "due_by moment now r =
     (case moment (time r) of None \<Rightarrow> False | Some t \<Rightarrow> day_of t \<le> day_of now)"

subsection \<open>Sequences of calls\<close>

text \<open>
  The prompt loop calls one method of the store after the other. A call either
  does not return (\<open>None\<close>), throws, or returns an answer and leaves a state.
\<close>

datatype operation =
    CreateReminder string string
  | Exists string
  | MarkReminderAsCompleted string
  | UnmarkReminderAsCompleted string
  | GetAllReminders
  | GetReminder string
  | GetAllRemindersMarkedAsCompleted
  | GetAllRemindersNotMarkedAsCompleted
  | UpdateReminder string "string option" "string option"
  | RemoveReminder string

datatype answer = Text string | Flag bool | One "Reminder option" | Many "Reminder list"

definition returned :: "error + string \<times> state \<Rightarrow> (error + answer \<times> state) option" where
  "returned x = (case x of Inl e \<Rightarrow> Some (Inl e) | Inr (out, s') \<Rightarrow> Some (Inr (Text out, s')))"

fun call :: "state \<Rightarrow> operation \<Rightarrow> (error + answer \<times> state) option" where
  "call s (CreateReminder msg tm) =
     (case createReminder s msg tm of None \<Rightarrow> None | Some (out, s') \<Rightarrow> Some (Inr (Text out, s')))"
| "call s (Exists i) = Some (Inr (Flag (exists_reminder s i), s))"
| "call s (MarkReminderAsCompleted i) = returned (markReminderAsCompleted s i)"
| "call s (UnmarkReminderAsCompleted i) = returned (unmarkReminderAsCompleted s i)"
| "call s GetAllReminders = Some (Inr (Many (getAllReminders s), s))"
| "call s (GetReminder i) = Some (Inr (One (getReminder s i), s))"
| "call s GetAllRemindersMarkedAsCompleted =
     Some (Inr (Many (getAllRemindersMarkedAsCompleted s), s))"
| "call s GetAllRemindersNotMarkedAsCompleted =
     Some (Inr (Many (getAllRemindersNotMarkedAsCompleted s), s))"
| "call s (UpdateReminder i msg tm) = returned (updateReminder s i msg tm)"
| "call s (RemoveReminder i) = returned (Inr (removeReminder s i))"

fun run :: "state \<Rightarrow> operation list \<Rightarrow> state option" where
  "run s [] = Some s"
| "run s (op # ops) =
     (case call s op of Some (Inr (a, s')) \<Rightarrow> run s' ops | _ \<Rightarrow> None)"

subsection \<open>Notions for the statements\<close>

text \<open>The data invariant of the specification: every key is the id of its reminder.\<close>

definition key_is_id :: "Reminder jsmap \<Rightarrow> bool" where
  "key_is_id m = (\<forall>(k, r) \<in> set m. k = id_of r)"

text \<open>
  The map that \<open>updateReminder\<close> leaves when the id is a key.
\<close>

definition updated :: "Reminder jsmap \<Rightarrow> string \<Rightarrow> string option \<Rightarrow> string option \<Rightarrow> Reminder jsmap" where
  "updated m i msg tm =
     (let m1 = (if truthy msg then assign_field m i (\<lambda>r. r\<lparr>message := the msg\<rparr>) else m);
          m2 = (if truthy tm then assign_field m1 i (\<lambda>r. r\<lparr>time := the tm\<rparr>) else m1)
      in Map_set m2 i (the (Map_get m2 i)))"

text \<open>
  Starting the program again on the files the state left: a new store object,
  made by the constructor from the same file name.
\<close>

definition restart :: "state \<Rightarrow> (nat \<Rightarrow> real) \<Rightarrow> nat \<Rightarrow> state" where
  "restart s rnd n = constructor (filename s) (files s) rnd n"

text \<open>
  The calls that change the store when they succeed: creating, and the four
  methods that look the id up first and succeed when it is a key.
\<close>

fun successful_mutation :: "state \<Rightarrow> operation \<Rightarrow> bool" where
  "successful_mutation s (CreateReminder msg tm) = True"
| "successful_mutation s (MarkReminderAsCompleted i) = Map_has (reminders s) i"
| "successful_mutation s (UnmarkReminderAsCompleted i) = Map_has (reminders s) i"
| "successful_mutation s (UpdateReminder i msg tm) = Map_has (reminders s) i"
| "successful_mutation s (RemoveReminder i) = Map_has (reminders s) i"
| "successful_mutation s op = False"

text \<open>Loading the file into an empty map gives the map the store holds.\<close>

definition in_sync :: "state \<Rightarrow> bool" where
  "in_sync s = (reminders (loadFromFile (s\<lparr>reminders := []\<rparr>)) = reminders s)"

subsection \<open>Example inputs\<close>

text \<open>A run of \<open>Math.random()\<close> that returns one half every time.\<close>

definition halves :: "nat \<Rightarrow> real" where
  "halves n = 1 / 2"

text \<open>
  A store started without a file, and the store after
  \<open>createReminder("buy milk", "2024-01-01 10:00")\<close> drew the id 55000000.
\<close>

definition milk :: Reminder where
  "milk = \<lparr>id_of = ''55000000'', message = ''buy milk'', time = ''2024-01-01 10:00'', completed = False\<rparr>"

definition empty_store :: state where
  "empty_store = constructor ''reminders.json'' Map.empty halves 0"

definition milk_store :: state where
  "milk_store =
     \<lparr>reminders = [(''55000000'', milk)], filename = ''reminders.json'',
      files = [''reminders.json'' \<mapsto> Entries [(''55000000'', milk)]],
      math_random = halves, drawn = 1\<rparr>"

text \<open>The store after the reminder 55000000 was marked as completed.\<close>

definition milk_done_store :: state where
  "milk_done_store =
     \<lparr>reminders = [(''55000000'', milk\<lparr>completed := True\<rparr>)], filename = ''reminders.json'',
      files = [''reminders.json'' \<mapsto> Entries [(''55000000'', milk\<lparr>completed := True\<rparr>)]],
      math_random = halves, drawn = 1\<rparr>"

text \<open>
  What \<open>moment\<close> returns for two time strings, in local milliseconds (the first
  is 1 January 2024, 10:00, the second two days later; every other string is
  taken as not valid), and a store with a reminder on each of the two days.
\<close>

definition moment_example :: "string \<Rightarrow> int option" where
  "moment_example str =
     (if str = ''2024-01-01 10:00'' then Some 1704103200000
      else if str = ''2024-01-03 10:00'' then Some 1704276000000
      else None)"

definition dentist :: Reminder where
  "dentist = \<lparr>id_of = ''32500000'', message = ''dentist'', time = ''2024-01-03 10:00'', completed = False\<rparr>"

definition two_store :: state where
  "two_store =
     \<lparr>reminders = [(''55000000'', milk), (''32500000'', dentist)], filename = ''reminders.json'',
      files = [''reminders.json'' \<mapsto> Entries [(''55000000'', milk), (''32500000'', dentist)]],
      math_random = halves, drawn = 2\<rparr>"

section \<open>Properties\<close>

subsection \<open>The map\<close>

lemma keys_assign_field: "map fst (assign_field m k f) = map fst m"
  by (induction m) (auto simp: assign_field_def)

lemma keys_Map_set_has: "Map_has m k \<Longrightarrow> map fst (Map_set m k v) = map fst m"
  by (induction m) (auto simp: Map_set_def Map_has_def)

lemma keys_Map_set_new: "\<not> Map_has m k \<Longrightarrow> map fst (Map_set m k v) = map fst m @ [k]"
  by (simp add: Map_set_def)

lemma Map_has_set: "Map_has (Map_set m k v) j = (j = k \<or> Map_has m j)"
proof (cases "Map_has m k")
  case True
  then show ?thesis using keys_Map_set_has [OF True, of v] by (auto simp: Map_has_def)
next
  case False
  then show ?thesis using keys_Map_set_new [OF False, of v] by (auto simp: Map_has_def)
qed

lemma Map_ok_set: "Map_ok m \<Longrightarrow> Map_ok (Map_set m k v)"
  by (cases "Map_has m k") (auto simp: Map_ok_def keys_Map_set_has keys_Map_set_new Map_has_def)

lemma map_of_replace:
  "map_of (map (\<lambda>(k', v'). if k' = k then (k', f v') else (k', v')) m) j =
     (if j = k then map_option f (map_of m k) else map_of m j)"
  by (induction m) auto

lemma Map_get_assign_field:
  "Map_get (assign_field m k f) j = (if j = k then map_option f (Map_get m k) else Map_get m j)"
  unfolding Map_get_def assign_field_def by (rule map_of_replace)

lemma Map_get_set: "Map_get (Map_set m k v) j = (if j = k then Some v else Map_get m j)"
proof (cases "Map_has m k")
  case True
  then obtain w where "map_of m k = Some w"
    by (auto simp: Map_has_def dest!: weak_map_of_SomeI) 
  with True show ?thesis
    using map_of_replace [of k "\<lambda>_. v" m j] by (simp add: Map_get_def Map_set_def)
next
  case False
  then have "map_of m k = None" by (simp add: Map_has_def map_of_eq_None_iff)
  with False show ?thesis by (auto simp: Map_get_def Map_set_def map_add_def split: option.splits)
qed

lemma Map_has_get: "Map_has m k = (Map_get m k \<noteq> None)"
  by (simp add: Map_has_def Map_get_def map_of_eq_None_iff)

lemma Map_ok_delete: "Map_ok m \<Longrightarrow> Map_ok (snd (Map_delete m k))"
  by (simp add: Map_ok_def Map_delete_def distinct_map_filter)

lemma Map_has_delete: "Map_has (snd (Map_delete m k)) j = (j \<noteq> k \<and> Map_has m j)"
  by (auto simp: Map_has_def Map_delete_def)

lemma Map_ok_assign_field: "Map_ok (assign_field m k f) = Map_ok m"
  by (simp add: Map_ok_def keys_assign_field)

lemma foldl_Map_set:
  "distinct (map fst (acc @ xs)) \<Longrightarrow> foldl (\<lambda>m (k, v). Map_set m k v) acc xs = acc @ xs"
proof (induction xs arbitrary: acc)
  case Nil
  then show ?case by simp
next
  case (Cons x xs)
  obtain k v where x: "x = (k, v)" by (cases x)
  from Cons.prems have "\<not> Map_has acc k" by (auto simp: x Map_has_def)
  then have "Map_set acc k v = acc @ [(k, v)]" by (simp add: Map_set_def)
  with Cons.IH [of "acc @ [(k, v)]"] Cons.prems show ?case by (simp add: x)
qed

lemma Map_new_entries: "Map_ok m \<Longrightarrow> Map_new (Map_entries m) = m"
  using foldl_Map_set [of "[]" m] by (simp add: Map_new_def Map_entries_def Map_ok_def)

lemma Map_ok_foldl:
  "Map_ok acc \<Longrightarrow> Map_ok (foldl (\<lambda>m (k, v). Map_set m k v) acc xs)"
  by (induction xs arbitrary: acc) (auto simp: Map_ok_set)

lemma Map_ok_new: "Map_ok (Map_new data)"
  unfolding Map_new_def by (rule Map_ok_foldl) (simp add: Map_ok_def)

subsection \<open>Decimal digits\<close>

lemma toDigits_numeral [simp]:
  "toDigits (numeral k) =
     (if (numeral k :: nat) < 10 then [digit_char (numeral k)]
      else toDigits (numeral k div 10) @ [digit_char (numeral k mod 10)])"
  by (rule toDigits.simps)

lemma isDigit_digit_char: "d < 10 \<Longrightarrow> isDigit (digit_char d)"
  unfolding digit_char_def isDigit_def by (rule nth_mem) simp

lemma digit_val_digit_char: "d < 10 \<Longrightarrow> digit_val (digit_char d) = d"
proof -
  assume "d < 10"
  then consider "d = 0" | "d = 1" | "d = 2" | "d = 3" | "d = 4"
    | "d = 5" | "d = 6" | "d = 7" | "d = 8" | "d = 9"
    by atomize_elim arith
  then show ?thesis
    by cases (simp_all add: digit_val_def digit_char_def)
qed

lemma list_all_isDigit_toDigits: "list_all isDigit (toDigits n)"
proof (induction n rule: toDigits.induct)
  case (1 n)
  show ?case
  proof (cases "n < 10")
    case True
    then show ?thesis by (simp add: toDigits.simps [of n] isDigit_digit_char)
  next
    case False
    with "1" show ?thesis by (simp add: toDigits.simps [of n] isDigit_digit_char)
  qed
qed

lemma fromDigits_snoc: "fromDigits (cs @ [c]) = 10 * fromDigits cs + digit_val c"
  by (simp add: fromDigits_def)

lemma fromDigits_toDigits: "fromDigits (toDigits n) = n"
proof (induction n rule: toDigits.induct)
  case (1 n)
  show ?case
  proof (cases "n < 10")
    case True
    then show ?thesis by (simp add: toDigits.simps [of n] fromDigits_def digit_val_digit_char)
  next
    case False
    with "1" show ?thesis
      by (simp add: toDigits.simps [of n] fromDigits_snoc digit_val_digit_char)
  qed
qed

lemma length_toDigits: "10 ^ k \<le> n \<Longrightarrow> n < 10 ^ Suc k \<Longrightarrow> length (toDigits n) = Suc k"
proof (induction k arbitrary: n)
  case 0
  then show ?case by (simp add: toDigits.simps [of n])
next
  case (Suc k)
  have "(1::nat) \<le> 10 ^ k" by simp
  moreover from Suc.prems have "10 * 10 ^ k \<le> n" by simp
  ultimately have big: "\<not> n < 10" by linarith
  from Suc.prems have "10 ^ k \<le> n div 10" "n div 10 < 10 ^ Suc k"
    by (simp_all add: less_mult_imp_div_less le_div_geq div_le_mono mult.commute)
  then have "length (toDigits (n div 10)) = Suc k" by (rule Suc.IH)
  with big show ?case by (simp add: toDigits.simps [of n])
qed

subsection \<open>Rounding\<close>

lemma rne_ge: "of_int n \<le> t \<Longrightarrow> n \<le> rne t"
proof -
  assume "of_int n \<le> t"
  then have "n \<le> \<lfloor>t\<rfloor>" by (simp add: le_floor_iff)
  then show ?thesis by (simp add: rne_def Let_def)
qed

lemma rne_le: "t < of_int n + 1 / 2 \<Longrightarrow> rne t \<le> n"
proof -
  assume a: "t < of_int n + 1 / 2"
  then have "t < of_int (n + 1)" by simp
  then have f: "\<lfloor>t\<rfloor> < n + 1" by (simp only: floor_less_iff)
  show ?thesis
  proof (cases "\<lfloor>t\<rfloor> = n")
    case True
    with a have "t - of_int \<lfloor>t\<rfloor> < 1 / 2" by simp
    with True show ?thesis by (simp add: rne_def Let_def)
  next
    case False
    with f have "\<lfloor>t\<rfloor> + 1 \<le> n" by simp
    then show ?thesis by (simp add: rne_def Let_def)
  qed
qed

lemma rne_le': "t \<le> of_int n \<Longrightarrow> rne t \<le> n"
  by (rule rne_le) simp

text \<open>The unit in the last place of a number below \<open>2^27\<close> divides \<open>2^-26\<close>.\<close>

lemma ulp_small:
  assumes "x \<noteq> 0" "\<bar>x\<bar> < 2 ^ 27"
  shows "\<exists>k::nat. (2::real) powr (of_int (max \<lfloor>log 2 \<bar>x\<bar>\<rfloor> (- 1022)) - 52) = 1 / 2 ^ (26 + k)"
proof -
  define e where "e = max \<lfloor>log 2 \<bar>x\<bar>\<rfloor> (- 1022)"
  from assms have "log 2 \<bar>x\<bar> < 27"
    by (subst log_less_iff) (simp_all add: powr_realpow [symmetric])
  then have "\<lfloor>log 2 \<bar>x\<bar>\<rfloor> < 27" by (simp add: floor_less_iff)
  then have e: "e \<le> 26" by (simp add: e_def)
  define k where "k = nat (26 - e)"
  from e have "real_of_int e - 52 = - real (26 + k)" by (simp add: k_def)
  then have "2 powr (of_int e - 52) = 2 powr (- real (26 + k))" by simp
  also have "\<dots> = 1 / 2 ^ (26 + k)"
    by (simp only: powr_minus powr_realpow zero_less_numeral inverse_eq_divide)
  finally show ?thesis unfolding e_def by blast
qed

lemma fl64_grid:
  assumes "x \<noteq> 0" "\<bar>x\<bar> < 2 ^ 27"
  shows "of_int m / 2 ^ 26 \<le> x \<Longrightarrow> of_int m / 2 ^ 26 \<le> fl64 x"
    and "x \<le> of_int m / 2 ^ 26 \<Longrightarrow> fl64 x \<le> of_int m / 2 ^ 26"
proof -
  from ulp_small [OF assms] obtain k :: nat
    where u: "(2::real) powr (of_int (max \<lfloor>log 2 \<bar>x\<bar>\<rfloor> (- 1022)) - 52) = 1 / 2 ^ (26 + k)" ..
  have fl: "fl64 x = of_int (rne (x * 2 ^ (26 + k))) / 2 ^ (26 + k)"
    unfolding fl64_def Let_def u using assms(1) by simp
  have g: "of_int m / 2 ^ 26 = of_int (m * 2 ^ k) / (2 ^ (26 + k) :: real)"
    by (simp add: power_add)
  {
    assume "of_int m / 2 ^ 26 \<le> x"
    then have "of_int m \<le> x * 2 ^ 26" by (simp only: pos_divide_le_eq zero_less_power zero_less_numeral)
    then have "of_int m * 2 ^ k \<le> x * 2 ^ 26 * 2 ^ k" by (rule mult_right_mono) simp
    then have "of_int (m * 2 ^ k) \<le> x * 2 ^ (26 + k)"
      by (simp only: power_add of_int_mult of_int_power of_int_numeral mult.assoc)
    then have "m * 2 ^ k \<le> rne (x * 2 ^ (26 + k))" by (rule rne_ge)
    then have "(of_int (m * 2 ^ k) :: real) \<le> of_int (rne (x * 2 ^ (26 + k)))"
      by (simp only: of_int_le_iff)
    then show "of_int m / 2 ^ 26 \<le> fl64 x"
      by (simp only: fl g divide_le_cancel) simp
  }
  {
    assume "x \<le> of_int m / 2 ^ 26"
    then have "x * 2 ^ 26 \<le> of_int m" by (simp only: pos_le_divide_eq zero_less_power zero_less_numeral)
    then have "x * 2 ^ 26 * 2 ^ k \<le> of_int m * 2 ^ k" by (rule mult_right_mono) simp
    then have "x * 2 ^ (26 + k) \<le> of_int (m * 2 ^ k)"
      by (simp only: power_add of_int_mult of_int_power of_int_numeral mult.assoc)
    then have "rne (x * 2 ^ (26 + k)) \<le> m * 2 ^ k" by (rule rne_le')
    then have "(of_int (rne (x * 2 ^ (26 + k))) :: real) \<le> of_int (m * 2 ^ k)"
      by (simp only: of_int_le_iff)
    then show "fl64 x \<le> of_int m / 2 ^ 26"
      by (simp only: fl g divide_le_cancel) simp
  }
qed

lemma fl64_of_int:
  assumes "\<bar>n\<bar> < 2 ^ 27" shows "fl64 (of_int n) = of_int n"
proof (cases "n = 0")
  case True
  then show ?thesis by (simp add: fl64_def)
next
  case False
  then have nz: "(of_int n :: real) \<noteq> 0" by simp
  from assms have "(of_int \<bar>n\<bar> :: real) < of_int (2 ^ 27)" by (simp only: of_int_less_iff)
  then have b: "\<bar>of_int n :: real\<bar> < 2 ^ 27" by simp
  have g: "(of_int n :: real) = of_int (n * 2 ^ 26) / 2 ^ 26" by simp
  from fl64_grid(1) [OF nz b, of "n * 2 ^ 26"] fl64_grid(2) [OF nz b, of "n * 2 ^ 26"]
  show ?thesis by (simp only: g [symmetric]) simp
qed

lemma floor_log2:
  assumes "0 < x" "2 powr of_int e \<le> x" "x < 2 powr (of_int e + 1)"
  shows "\<lfloor>log 2 x\<rfloor> = e"
proof (rule floor_unique)
  from assms(1,2) show "of_int e \<le> log 2 x" by (simp add: le_log_iff)
  from assms(1,3) show "log 2 x < of_int e + 1" by (simp add: log_less_iff)
qed

lemma fl64_binade:
  assumes "0 < x" "2 powr of_int e \<le> x" "x < 2 powr (of_int e + 1)" "- 1022 \<le> e"
  shows "fl64 x = of_int (rne (x / 2 powr (of_int e - 52))) * 2 powr (of_int e - 52)"
proof -
  from assms(1) have "\<bar>x\<bar> = x" by simp
  with floor_log2 [OF assms(1-3)] assms(4) have "max \<lfloor>log 2 \<bar>x\<bar>\<rfloor> (- 1022) = e" by simp
  with assms(1) show ?thesis by (simp add: fl64_def Let_def)
qed

lemma double_below_one:
  assumes "is_double r" "0 \<le> r" "r < 1"
  shows "r \<le> 1 - 1 / 2 ^ 53"
proof (cases "r < 1 / 2")
  case True
  have "(1::real) / 2 \<le> 1 - 1 / 2 ^ 53" by simp
  with True show ?thesis by linarith
next
  case False
  then have pos: "0 < r" and lo: "2 powr of_int (- 1) \<le> r" by (simp_all add: powr_minus)
  from assms(3) have hi: "r < 2 powr (of_int (- 1) + 1)" by simp
  have u: "(2::real) powr (- 53) = 1 / 2 ^ 53"
  proof -
    have "(2::real) powr (- 53) = 2 powr (- real 53)" by simp
    also have "\<dots> = 1 / 2 ^ 53"
      by (simp only: powr_minus powr_realpow zero_less_numeral inverse_eq_divide)
    finally show ?thesis .
  qed
  define N where "N = rne (r * 2 ^ 53)"
  from fl64_binade [OF pos lo hi] assms(1) have r: "r = of_int N / 2 ^ 53"
    by (simp add: is_double_def u N_def)
  with assms(3) have "of_int N < (2 ^ 53 :: real)" by (simp add: pos_divide_less_eq)
  then have "of_int N < (of_int (2 ^ 53) :: real)" by simp
  then have "N < 2 ^ 53" by (simp only: of_int_less_iff)
  then have "N \<le> 2 ^ 53 - 1" by simp
  then have "(of_int N :: real) \<le> of_int (2 ^ 53 - 1)" by (simp only: of_int_le_iff)
  then have "(of_int N :: real) / 2 ^ 53 \<le> of_int (2 ^ 53 - 1) / 2 ^ 53"
    by (rule divide_right_mono) simp
  also have "(of_int (2 ^ 53 - 1) :: real) / 2 ^ 53 = 1 - 1 / 2 ^ 53" by simp
  finally show ?thesis by (simp only: r)
qed

lemma fl64_product:
  assumes "0 \<le> r" "r \<le> 1 - 1 / 2 ^ 53"
  shows "0 \<le> fl64 (r * 90000000)" "fl64 (r * 90000000) \<le> 90000000 - 1 / 2 ^ 26"
proof -
  define a where "a = r * 90000000"
  from assms have a0: "0 \<le> a" and a1: "a \<le> 90000000 - 90000000 / 2 ^ 53"
    by (simp_all add: a_def algebra_simps)
  then have small: "\<bar>a\<bar> < 2 ^ 27" by simp
  show "0 \<le> fl64 (r * 90000000)"
  proof (cases "a = 0")
    case True
    then show ?thesis by (simp add: a_def [symmetric] fl64_def)
  next
    case False
    from fl64_grid(1) [OF False small, of 0] a0 show ?thesis by (simp add: a_def)
  qed
  show "fl64 (r * 90000000) \<le> 90000000 - 1 / 2 ^ 26"
  proof (cases "a = 0")
    case True
    then show ?thesis by (simp add: a_def [symmetric] fl64_def)
  next
    case nz: False
    show ?thesis
    proof (cases "a < 2 ^ 26")
      case True
      then have "a \<le> of_int (2 ^ 52) / 2 ^ 26" by simp
      from fl64_grid(2) [OF nz small this] have "fl64 a \<le> 2 ^ 26" by simp
      then show ?thesis by (simp add: a_def)
    next
      case False
      with a0 have pos: "0 < a" and lo: "2 powr of_int 26 \<le> a"
        by (simp_all add: powr_realpow [of 2 26, simplified])
      from small have hi: "a < 2 powr (of_int 26 + 1)"
        using powr_realpow [of 2 27] by simp
      have u: "(2::real) powr (- 26) = 1 / 2 ^ 26"
      proof -
        have "(2::real) powr (- 26) = 2 powr (- real 26)" by simp
        also have "\<dots> = 1 / 2 ^ 26"
          by (simp only: powr_minus powr_realpow zero_less_numeral inverse_eq_divide)
        finally show ?thesis .
      qed
      from fl64_binade [OF pos lo hi] have fl: "fl64 a = of_int (rne (a * 2 ^ 26)) / 2 ^ 26"
        by (simp add: u)
      from a1 have "a * 2 ^ 26 \<le> (90000000 - 90000000 / 2 ^ 53) * 2 ^ 26"
        by (rule mult_right_mono) simp
      also have "\<dots> < of_int (90000000 * 2 ^ 26 - 1) + 1 / 2" by simp
      finally have "rne (a * 2 ^ 26) \<le> 90000000 * 2 ^ 26 - 1" by (rule rne_le)
      then have "(of_int (rne (a * 2 ^ 26)) :: real) \<le> of_int (90000000 * 2 ^ 26 - 1)"
        by (simp only: of_int_le_iff)
      then have "(of_int (rne (a * 2 ^ 26)) :: real) / 2 ^ 26 \<le> of_int (90000000 * 2 ^ 26 - 1) / 2 ^ 26"
        by (rule divide_right_mono) simp
      also have "(of_int (90000000 * 2 ^ 26 - 1) :: real) / 2 ^ 26 = 90000000 - 1 / 2 ^ 26" by simp
      finally show ?thesis by (simp only: fl a_def [symmetric])
    qed
  qed
qed

lemma fl64_sum:
  assumes "0 \<le> y" "y \<le> 90000000 - 1 / 2 ^ 26"
  shows "10000000 \<le> fl64 (10000000 + y)" "fl64 (10000000 + y) \<le> 100000000 - 1 / 2 ^ 26"
proof -
  define x where "x = 10000000 + y"
  from assms have x0: "10000000 \<le> x" and x1: "x \<le> 100000000 - 1 / 2 ^ 26"
    by (simp_all add: x_def)
  then have nz: "x \<noteq> 0" and small: "\<bar>x\<bar> < 2 ^ 27" by simp_all
  from x0 have "of_int (10000000 * 2 ^ 26) / 2 ^ 26 \<le> x" by simp
  from fl64_grid(1) [OF nz small this] show "10000000 \<le> fl64 (10000000 + y)"
    by (simp add: x_def)
  from x1 have "x \<le> of_int (100000000 * 2 ^ 26 - 1) / 2 ^ 26" by simp
  from fl64_grid(2) [OF nz small this] show "fl64 (10000000 + y) \<le> 100000000 - 1 / 2 ^ 26"
    by (simp add: x_def)
qed

lemma floor_draw:
  assumes "is_double r" "0 \<le> r" "r < 1"
  shows "10000000 \<le> \<lfloor>fl64 (10000000 + fl64 (r * 90000000))\<rfloor>"
    "\<lfloor>fl64 (10000000 + fl64 (r * 90000000))\<rfloor> \<le> 99999999"
proof -
  note p = fl64_product [OF assms(2) double_below_one [OF assms]]
  note s = fl64_sum [OF p]
  from s(1) show "10000000 \<le> \<lfloor>fl64 (10000000 + fl64 (r * 90000000))\<rfloor>"
    by (simp add: le_floor_iff)
  from s(2) have "fl64 (10000000 + fl64 (r * 90000000)) < 100000000" by simp
  then have "\<lfloor>fl64 (10000000 + fl64 (r * 90000000))\<rfloor> < 100000000" by (simp add: floor_less_iff)
  then show "\<lfloor>fl64 (10000000 + fl64 (r * 90000000))\<rfloor> \<le> 99999999" by simp
qed

lemma is_double_half: "is_double (1 / 2)"
proof -
  have nz: "(1 / 2 :: real) \<noteq> 0" and small: "\<bar>1 / 2 :: real\<bar> < 2 ^ 27" by simp_all
  have g: "(1 / 2 :: real) = of_int (2 ^ 25) / 2 ^ 26" by simp
  from fl64_grid(1) [OF nz small, of "2 ^ 25"] fl64_grid(2) [OF nz small, of "2 ^ 25"]
  show ?thesis unfolding is_double_def by (simp only: g [symmetric]) simp
qed

lemma fl64_45000000: "fl64 45000000 = 45000000"
  using fl64_of_int [of 45000000] by simp

lemma fl64_55000000: "fl64 55000000 = 55000000"
  using fl64_of_int [of 55000000] by simp

subsection \<open>The shape of an id\<close>

lemma random_id_shape:
  assumes "is_double r" "0 \<le> r" "r < 1"
  shows "length (random_id r) = 8" "list_all isDigit (random_id r)"
    "10000000 \<le> fromDigits (random_id r)" "fromDigits (random_id r) \<le> 99999999"
proof -
  define z where "z = \<lfloor>fl64 (10000000 + fl64 (r * 90000000))\<rfloor>"
  from floor_draw [OF assms] have z: "10000000 \<le> z" "z \<le> 99999999" by (simp_all only: z_def)
  have "random_id r = toString z" by (simp only: random_id_def z_def)
  with z have id: "random_id r = toDigits (nat z)" by (simp add: toString_def)
  from z have n: "10 ^ 7 \<le> nat z" "nat z < 10 ^ Suc 7" by simp_all
  from length_toDigits [OF n] show "length (random_id r) = 8" by (simp add: id)
  show "list_all isDigit (random_id r)" by (simp add: id list_all_isDigit_toDigits)
  from z show "10000000 \<le> fromDigits (random_id r)" "fromDigits (random_id r) \<le> 99999999"
    by (simp_all add: id fromDigits_toDigits)
qed

subsection \<open>Generating ids\<close>

lemma generateUniqueId_result:
  assumes "generateUniqueId m rnd n = Some y"
  shows "\<exists>k. fst y = random_id (rnd (n + k)) \<and> snd y = Suc (n + k) \<and> \<not> Map_has m (fst y)"
  using assms
proof (induct m rnd n y rule: generateUniqueId.raw_induct [rotated, consumes 1, case_names step])
  case (step f m rnd n y)
  show ?case
  proof (cases "Map_has m (random_id (rnd n))")
    case True
    with step(2) have "f m rnd (Suc n) = Some y" by (simp add: Let_def)
    from step(1) [OF this] obtain k where
      "fst y = random_id (rnd (Suc n + k)) \<and> snd y = Suc (Suc n + k) \<and> \<not> Map_has m (fst y)" ..
    then have "fst y = random_id (rnd (n + Suc k)) \<and> snd y = Suc (n + Suc k) \<and> \<not> Map_has m (fst y)"
      by auto
    then show ?thesis ..
  next
    case False
    with step(2) have "y = (random_id (rnd n), Suc n)" by (simp add: Let_def)
    with False have "fst y = random_id (rnd (n + 0)) \<and> snd y = Suc (n + 0) \<and> \<not> Map_has m (fst y)"
      by simp
    then show ?thesis ..
  qed
qed

lemma generateUniqueId_returns:
  "\<not> Map_has m (random_id (rnd (n + k))) \<Longrightarrow> \<exists>i n'. generateUniqueId m rnd n = Some (i, n')"
proof (induction k arbitrary: n)
  case 0
  then show ?case by (simp add: generateUniqueId.simps [of m rnd n])
next
  case (Suc k)
  from Suc.prems have "\<not> Map_has m (random_id (rnd (Suc n + k)))" by simp
  from Suc.IH [OF this] obtain i n' where "generateUniqueId m rnd (Suc n) = Some (i, n')" by blast
  then show ?case by (cases "Map_has m (random_id (rnd n))") (simp_all add: generateUniqueId.simps [of m rnd n])
qed

lemma random_id_half: "random_id (1 / 2) = ''55000000''"
  by (simp add: random_id_def fl64_45000000 fl64_55000000 toString_def digit_char_def)

lemma unit_interval_halves: "unit_interval halves"
  by (simp add: unit_interval_def halves_def is_double_half)

text \<open>
  C3: every id that \<open>generateUniqueId\<close> returns, at any state of the map and so
  after any sequence of \<open>createReminder\<close> calls, is a string of exactly 8 decimal
  digits that denotes a number from 10000000 to 99999999, and it is not a key of
  the map at that moment. \<open>Math.random()\<close> returns doubles from 0 up to, but not
  including, 1, and the product and the sum are rounded as doubles are.
\<close>

theorem generateUniqueId_fresh_8_digits:
  assumes "unit_interval rnd" and "generateUniqueId m rnd n = Some (i, n')"
  shows "length i = 8 \<and> list_all isDigit i \<and> 10000000 \<le> fromDigits i \<and> fromDigits i \<le> 99999999
    \<and> \<not> Map_has m i"
proof -
  from generateUniqueId_result [OF assms(2)] obtain k
    where i: "i = random_id (rnd (n + k))" and fresh: "\<not> Map_has m i" by auto
  from assms(1) have "is_double (rnd (n + k))" "0 \<le> rnd (n + k)" "rnd (n + k) < 1"
    by (simp_all add: unit_interval_def)
  from random_id_shape [OF this] fresh show ?thesis by (simp add: i)
qed

theorem generateUniqueId_fresh_8_digits_witness:
  "unit_interval halves \<and> generateUniqueId [] halves 0 = Some (''55000000'', 1)
   \<and> length ''55000000'' = 8 \<and> list_all isDigit ''55000000'' \<and> 10000000 \<le> fromDigits ''55000000''
   \<and> fromDigits ''55000000'' \<le> 99999999 \<and> \<not> Map_has [] ''55000000''"
proof -
  note u = unit_interval_halves
  have g: "generateUniqueId [] halves 0 = Some (''55000000'', 1)"
    by (simp add: generateUniqueId.simps Map_has_def random_id_half halves_def)
  from generateUniqueId_fresh_8_digits [OF u g] u g show ?thesis by (simp add: Map_has_def)
qed

subsection \<open>What each method returns\<close>

lemma reminders_saveToFile [simp]: "reminders (saveToFile s) = reminders s"
  by (simp add: saveToFile_def)

lemma filename_saveToFile [simp]: "filename (saveToFile s) = filename s"
  by (simp add: saveToFile_def)

lemma files_saveToFile [simp]:
  "files (saveToFile s) (filename s) = Some (Entries (Map_entries (reminders s)))"
  by (simp add: saveToFile_def)

lemma Map_get_SomeE:
  assumes "Map_has m k" obtains v where "Map_get m k = Some v"
  using assms by (auto simp: Map_has_get)

lemma markReminderAsCompleted_cases:
  "markReminderAsCompleted s i =
     (if Map_has (reminders s) i
      then Inr (''Reminder '' @ i @ '' marked as completed.'',
             saveToFile (s\<lparr>reminders := assign_field (reminders s) i (\<lambda>r. r\<lparr>completed := True\<rparr>)\<rparr>))
      else Inr (''Reminder '' @ i @ '' not found.'', s))"
  by (auto simp: markReminderAsCompleted_def elim: Map_get_SomeE)

lemma unmarkReminderAsCompleted_cases:
  "unmarkReminderAsCompleted s i =
     (if Map_has (reminders s) i
      then Inr (''Reminder '' @ i @ '' unmarked as completed.'',
             saveToFile (s\<lparr>reminders := assign_field (reminders s) i (\<lambda>r. r\<lparr>completed := False\<rparr>)\<rparr>))
      else Inr (''Reminder '' @ i @ '' not found.'', s))"
  by (auto simp: unmarkReminderAsCompleted_def elim: Map_get_SomeE)

lemma Map_has_assign_field [simp]: "Map_has (assign_field m k f) j = Map_has m j"
  by (simp add: Map_has_def keys_assign_field)

lemma updateReminder_cases:
  "updateReminder s i msg tm =
     (if Map_has (reminders s) i
      then Inr (''Reminder '' @ i @ '' updated.'',
             saveToFile (s\<lparr>reminders := updated (reminders s) i msg tm\<rparr>))
      else Inr (''Reminder '' @ i @ '' not found.'', s))"
proof (cases "Map_has (reminders s) i")
  case False
  then show ?thesis by (simp add: updateReminder_def)
next
  case True
  define m1 where "m1 = (if truthy msg then assign_field (reminders s) i (\<lambda>r. r\<lparr>message := the msg\<rparr>) else reminders s)"
  define m2 where "m2 = (if truthy tm then assign_field m1 i (\<lambda>r. r\<lparr>time := the tm\<rparr>) else m1)"
  from True have "Map_has m2 i" by (simp add: m1_def m2_def)
  then obtain r' where r': "Map_get m2 i = Some r'" by (rule Map_get_SomeE)
  from True obtain r where r: "Map_get (reminders s) i = Some r" by (rule Map_get_SomeE)
  have "updated (reminders s) i msg tm = Map_set m2 i r'"
    using r' by (simp add: updated_def Let_def m1_def [symmetric] m2_def [symmetric])
  moreover have "updateReminder s i msg tm =
      Inr (''Reminder '' @ i @ '' updated.'', saveToFile (s\<lparr>reminders := Map_set m2 i r'\<rparr>))"
    using True r r' by (simp add: updateReminder_def Let_def m1_def [symmetric] m2_def [symmetric])
  ultimately show ?thesis using True by simp
qed

lemma removeReminder_cases:
  "removeReminder s i =
     (if Map_has (reminders s) i
      then (''Reminder '' @ i @ '' deleted.'',
            saveToFile (s\<lparr>reminders := filter (\<lambda>(k, v). k \<noteq> i) (reminders s)\<rparr>))
      else (''Reminder '' @ i @ '' not found.'', s))"
proof (cases "Map_has (reminders s) i")
  case True
  then show ?thesis by (simp add: removeReminder_def Map_delete_def)
next
  case False
  then have "filter (\<lambda>(k, v). k \<noteq> i) (reminders s) = reminders s"
    by (intro filter_True) (force simp: Map_has_def)
  with False show ?thesis by (simp add: removeReminder_def Map_delete_def)
qed

lemma createReminder_cases:
  "createReminder s msg tm = Some (out, s') \<Longrightarrow>
     \<exists>i n. generateUniqueId (reminders s) (math_random s) (drawn s) = Some (i, n)
       \<and> \<not> Map_has (reminders s) i
       \<and> out = ''Reminder created with ID: '' @ i
       \<and> s' = saveToFile (s\<lparr>drawn := n, reminders := reminders s @
                 [(i, \<lparr>id_of = i, message = msg, time = tm, completed = False\<rparr>)]\<rparr>)"
proof -
  assume a: "createReminder s msg tm = Some (out, s')"
  then obtain i n where g: "generateUniqueId (reminders s) (math_random s) (drawn s) = Some (i, n)"
    by (auto simp: createReminder_def split: option.splits)
  from generateUniqueId_result [OF g] have fresh: "\<not> Map_has (reminders s) i" by auto
  with a g show ?thesis by (auto simp: createReminder_def Map_set_def)
qed

subsection \<open>The key invariant\<close>

lemma key_is_id_Map_set: "key_is_id m \<Longrightarrow> k = id_of v \<Longrightarrow> key_is_id (Map_set m k v)"
  by (auto simp: key_is_id_def Map_set_def split: if_splits)

lemma key_is_id_assign_field:
  "key_is_id m \<Longrightarrow> (\<And>r. id_of (f r) = id_of r) \<Longrightarrow> key_is_id (assign_field m k f)"
  by (auto simp: key_is_id_def assign_field_def split: if_splits)

lemma key_is_id_filter: "key_is_id m \<Longrightarrow> key_is_id (filter P m)"
  by (auto simp: key_is_id_def)

lemma key_is_id_get: "key_is_id m \<Longrightarrow> Map_get m k = Some r \<Longrightarrow> id_of r = k"
  by (auto simp: key_is_id_def Map_get_def dest!: map_of_SomeD)

lemma key_is_id_updated:
  assumes "key_is_id m" "Map_has m i" shows "key_is_id (updated m i msg tm)"
proof -
  define m1 where "m1 = (if truthy msg then assign_field m i (\<lambda>r. r\<lparr>message := the msg\<rparr>) else m)"
  define m2 where "m2 = (if truthy tm then assign_field m1 i (\<lambda>r. r\<lparr>time := the tm\<rparr>) else m1)"
  from assms(1) have "key_is_id m1" by (simp add: m1_def key_is_id_assign_field)
  then have k2: "key_is_id m2" by (simp add: m2_def key_is_id_assign_field)
  from assms(2) have "Map_has m2 i" by (simp add: m1_def m2_def)
  then obtain r' where r': "Map_get m2 i = Some r'" by (rule Map_get_SomeE)
  from key_is_id_get [OF k2 r'] have "i = id_of r'" by simp
  from key_is_id_Map_set [OF k2 this] r' show ?thesis
    by (simp add: updated_def Let_def m1_def [symmetric] m2_def [symmetric])
qed

lemma call_key_is_id:
  assumes "key_is_id (reminders s)" "call s op = Some (Inr (a, s'))"
  shows "key_is_id (reminders s')"
proof (cases op)
  case (CreateReminder msg tm)
  with assms(2) obtain out where "createReminder s msg tm = Some (out, s')"
    by (auto split: option.splits)
  from createReminder_cases [OF this] assms(1) show ?thesis
    by (auto simp: key_is_id_def)
next
  case (MarkReminderAsCompleted i)
  with assms show ?thesis
    by (auto simp: returned_def markReminderAsCompleted_cases key_is_id_assign_field split: if_splits)
next
  case (UnmarkReminderAsCompleted i)
  with assms show ?thesis
    by (auto simp: returned_def unmarkReminderAsCompleted_cases key_is_id_assign_field split: if_splits)
next
  case (UpdateReminder i msg tm)
  with assms show ?thesis
    by (auto simp: returned_def updateReminder_cases key_is_id_updated split: if_splits)
next
  case (RemoveReminder i)
  with assms show ?thesis
    by (auto simp: returned_def removeReminder_cases key_is_id_filter split: if_splits)
qed (use assms in auto)

lemma run_key_is_id:
  "key_is_id (reminders s) \<Longrightarrow> run s ops = Some s' \<Longrightarrow> key_is_id (reminders s')"
proof (induction ops arbitrary: s)
  case Nil
  then show ?case by simp
next
  case (Cons op ops)
  from Cons.prems(2) obtain a s1 where c: "call s op = Some (Inr (a, s1))" and r: "run s1 ops = Some s'"
    by (auto split: option.splits sum.splits)
  from call_key_is_id [OF Cons.prems(1) c] have "key_is_id (reminders s1)" .
  from Cons.IH [OF this r] show ?case .
qed

subsection \<open>The example store\<close>

lemma empty_store_eq:
  "empty_store =
     \<lparr>reminders = [], filename = ''reminders.json'', files = Map.empty, math_random = halves, drawn = 0\<rparr>"
  by (simp add: empty_store_def constructor_def loadFromFile_def)

lemma generateUniqueId_empty_store:
  "generateUniqueId (reminders empty_store) (math_random empty_store) (drawn empty_store)
     = Some (''55000000'', 1)"
  by (simp add: empty_store_eq generateUniqueId.simps [of "[]"] halves_def random_id_half Map_has_def)

lemma createReminder_empty_store:
  "createReminder empty_store ''buy milk'' ''2024-01-01 10:00''
     = Some (''Reminder created with ID: 55000000'', milk_store)"
  using generateUniqueId_empty_store
  by (simp add: createReminder_def empty_store_eq milk_store_def milk_def Map_set_def Map_has_def
      saveToFile_def Map_entries_def)

lemma key_is_id_milk_store: "key_is_id (reminders milk_store)"
  by (simp add: key_is_id_def milk_store_def milk_def)

lemma Map_has_milk_store: "Map_has (reminders milk_store) ''55000000''"
  by (simp add: Map_has_def milk_store_def)

lemma key_is_id_two_store: "key_is_id (reminders two_store)"
  by (simp add: key_is_id_def two_store_def milk_def dentist_def)

lemma Map_has_two_store: "Map_has (reminders two_store) ''32500000''"
  by (simp add: Map_has_def two_store_def)

subsection \<open>Claims about the store\<close>

text \<open>
  C9: in every state that a sequence of calls reaches from a store with no
  reminders, every key of the map is the \<open>id\<close> field of the reminder stored under
  it; and every call that returns (create, update, mark, unmark, remove, and the
  queries) keeps that invariant.
\<close>

theorem key_is_id_invariant:
  "(reminders s0 = [] \<and> run s0 ops = Some s \<longrightarrow> key_is_id (reminders s))
   \<and> (key_is_id (reminders s) \<and> call s op = Some (Inr (a, s')) \<longrightarrow> key_is_id (reminders s'))"
proof -
  have "key_is_id (reminders s)" if "reminders s0 = []" "run s0 ops = Some s"
  proof -
    from that(1) have "key_is_id (reminders s0)" by (simp add: key_is_id_def)
    then show ?thesis using that(2) by (rule run_key_is_id)
  qed
  moreover have "key_is_id (reminders s')" if "key_is_id (reminders s)" "call s op = Some (Inr (a, s'))"
    using that by (rule call_key_is_id)
  ultimately show ?thesis by blast
qed

theorem key_is_id_invariant_witness:
  "reminders empty_store = []
   \<and> run empty_store [CreateReminder ''buy milk'' ''2024-01-01 10:00''] = Some milk_store
   \<and> key_is_id (reminders milk_store)
   \<and> call milk_store (RemoveReminder ''55000000'')
       = Some (Inr (Text ''Reminder 55000000 deleted.'',
           milk_store\<lparr>reminders := [], files := [''reminders.json'' \<mapsto> Entries []]\<rparr>))
   \<and> key_is_id (reminders (milk_store\<lparr>reminders := [], files := [''reminders.json'' \<mapsto> Entries []]\<rparr>))"
proof -
  have a: "reminders empty_store = []" by (simp add: empty_store_eq)
  have b: "run empty_store [CreateReminder ''buy milk'' ''2024-01-01 10:00''] = Some milk_store"
    by (simp add: createReminder_empty_store)
  have c: "call milk_store (RemoveReminder ''55000000'')
       = Some (Inr (Text ''Reminder 55000000 deleted.'',
           milk_store\<lparr>reminders := [], files := [''reminders.json'' \<mapsto> Entries []]\<rparr>))"
    by (simp add: returned_def removeReminder_def Map_delete_def Map_has_def milk_store_def
        saveToFile_def Map_entries_def)
  from key_is_id_invariant
    [of empty_store "[CreateReminder ''buy milk'' ''2024-01-01 10:00'']" milk_store
      "RemoveReminder ''55000000''" "Text ''Reminder 55000000 deleted.''"
      "milk_store\<lparr>reminders := [], files := [''reminders.json'' \<mapsto> Entries []]\<rparr>"]
    a b c
  show ?thesis by simp
qed

text \<open>
  C7: for an id that is not a key of the map, \<open>markReminderAsCompleted\<close>,
  \<open>unmarkReminderAsCompleted\<close>, \<open>updateReminder\<close> and \<open>removeReminder\<close> return the
  text \<open>Reminder <id> not found.\<close> (they do not throw) and leave the state, map and
  file, as it was. After \<open>removeReminder\<close> on any id, a second \<open>removeReminder\<close> on
  that id returns not found and changes nothing.
\<close>

theorem not_found_is_returned:
  assumes "\<not> Map_has (reminders s) i"
  shows "markReminderAsCompleted s i = Inr (''Reminder '' @ i @ '' not found.'', s)
    \<and> unmarkReminderAsCompleted s i = Inr (''Reminder '' @ i @ '' not found.'', s)
    \<and> updateReminder s i msg tm = Inr (''Reminder '' @ i @ '' not found.'', s)
    \<and> removeReminder s i = (''Reminder '' @ i @ '' not found.'', s)
    \<and> removeReminder (snd (removeReminder s0 j)) j
        = (''Reminder '' @ j @ '' not found.'', snd (removeReminder s0 j))"
proof -
  have "\<not> Map_has (reminders (snd (removeReminder s0 j))) j"
    by (auto simp: removeReminder_cases Map_has_def)
  then have "removeReminder (snd (removeReminder s0 j)) j
        = (''Reminder '' @ j @ '' not found.'', snd (removeReminder s0 j))"
    by (simp add: removeReminder_cases [of "snd (removeReminder s0 j)"])
  with assms show ?thesis
    by (simp add: markReminderAsCompleted_cases unmarkReminderAsCompleted_cases
        updateReminder_cases removeReminder_cases [of s])
qed

theorem not_found_is_returned_witness:
  "\<not> Map_has (reminders milk_store) ''12345678''
   \<and> markReminderAsCompleted milk_store ''12345678'' = Inr (''Reminder 12345678 not found.'', milk_store)
   \<and> unmarkReminderAsCompleted milk_store ''12345678'' = Inr (''Reminder 12345678 not found.'', milk_store)
   \<and> updateReminder milk_store ''12345678'' (Some ''buy bread'') None
       = Inr (''Reminder 12345678 not found.'', milk_store)
   \<and> removeReminder milk_store ''12345678'' = (''Reminder 12345678 not found.'', milk_store)
   \<and> removeReminder (snd (removeReminder milk_store ''55000000'')) ''55000000''
       = (''Reminder 55000000 not found.'', snd (removeReminder milk_store ''55000000''))"
proof -
  have a: "\<not> Map_has (reminders milk_store) ''12345678''" by (simp add: Map_has_def milk_store_def)
  from not_found_is_returned [OF a, of "Some ''buy bread''" None milk_store "''55000000''"] a
  show ?thesis by simp
qed

text \<open>
  C10: the completed and the pending reminders partition the list of all
  reminders: each filtered list is the list of all reminders with the others
  left out, so the order is kept; together they hold every reminder as often as
  the full list does, and no reminder is in both. None of the three queries
  changes the state: the call returns the state it got, map and files included.
\<close>

theorem completed_and_pending_partition_all:
  "getAllRemindersMarkedAsCompleted s = filter completed (getAllReminders s)
   \<and> getAllRemindersNotMarkedAsCompleted s = filter (\<lambda>r. \<not> completed r) (getAllReminders s)
   \<and> mset (getAllRemindersMarkedAsCompleted s) + mset (getAllRemindersNotMarkedAsCompleted s)
       = mset (getAllReminders s)
   \<and> set (getAllRemindersMarkedAsCompleted s) \<inter> set (getAllRemindersNotMarkedAsCompleted s) = {}
   \<and> subseq (getAllRemindersMarkedAsCompleted s) (getAllReminders s)
   \<and> subseq (getAllRemindersNotMarkedAsCompleted s) (getAllReminders s)
   \<and> call s GetAllReminders = Some (Inr (Many (getAllReminders s), s))
   \<and> call s GetAllRemindersMarkedAsCompleted = Some (Inr (Many (getAllRemindersMarkedAsCompleted s), s))
   \<and> call s GetAllRemindersNotMarkedAsCompleted
       = Some (Inr (Many (getAllRemindersNotMarkedAsCompleted s), s))"
proof -
  have c: "getAllRemindersMarkedAsCompleted s = filter completed (getAllReminders s)"
    by (simp add: getAllRemindersMarkedAsCompleted_def getAllReminders_def)
  have p: "getAllRemindersNotMarkedAsCompleted s = filter (\<lambda>r. \<not> completed r) (getAllReminders s)"
    by (simp add: getAllRemindersNotMarkedAsCompleted_def getAllReminders_def)
  have "set (filter completed (getAllReminders s)) \<inter> set (filter (\<lambda>r. \<not> completed r) (getAllReminders s)) = {}"
    by auto
  then show ?thesis by (simp add: c p)
qed

subsection \<open>Completion\<close>

lemma assign_field_entry:
  "(k, v) \<in> set (assign_field m k f) \<Longrightarrow> \<exists>v0. (k, v0) \<in> set m \<and> v = f v0"
  by (auto simp: assign_field_def split: if_splits)

lemma Map_get_in_values: "Map_get m k = Some v \<Longrightarrow> v \<in> set (Map_values m)"
  by (force simp: Map_get_def Map_values_def dest: map_of_SomeD)

lemma assign_completed:
  fixes b :: bool
  assumes inv: "key_is_id m" and has: "Map_has m i"
  defines "m' \<equiv> assign_field m i (\<lambda>r. r\<lparr>completed := b\<rparr>)"
  shows "\<exists>r. Map_get m' i = Some r \<and> id_of r = i \<and> completed r = b"
    and "\<And>p. p \<in> set (Map_values m') \<Longrightarrow> id_of p = i \<Longrightarrow> completed p = b"
    and "key_is_id m'" and "Map_has m' i"
proof -
  show inv': "key_is_id m'" using inv by (simp add: m'_def key_is_id_assign_field)
  show "Map_has m' i" using has by (simp add: m'_def)
  from has obtain r where r: "Map_get m i = Some r" by (rule Map_get_SomeE)
  then have "Map_get m' i = Some (r\<lparr>completed := b\<rparr>)" by (simp add: m'_def Map_get_assign_field)
  moreover from key_is_id_get [OF inv r] have "id_of (r\<lparr>completed := b\<rparr>) = i" by simp
  ultimately show "\<exists>r. Map_get m' i = Some r \<and> id_of r = i \<and> completed r = b" by simp
  fix p assume "p \<in> set (Map_values m')" and p: "id_of p = i"
  then obtain k where "(k, p) \<in> set m'" by (auto simp: Map_values_def)
  with inv' p have "(i, p) \<in> set m'" by (auto simp: key_is_id_def)
  then obtain v0 where "p = v0\<lparr>completed := b\<rparr>" unfolding m'_def by (blast dest: assign_field_entry)
  then show "completed p = b" by simp
qed

text \<open>
  C5: when every key is the id of its reminder and \<open>i\<close> is a key, then after
  \<open>markReminderAsCompleted\<close> on \<open>i\<close> the reminder stored under \<open>i\<close> is in the list of
  completed reminders and no reminder with the id \<open>i\<close> is in the list of pending
  ones; after \<open>unmarkReminderAsCompleted\<close> on \<open>i\<close> in that state it is the other way
  round.
\<close>

theorem mark_then_unmark_completed:
  assumes "key_is_id (reminders s)" and "Map_has (reminders s) i"
  shows "\<exists>s1 r1 s2 r2.
      markReminderAsCompleted s i = Inr (''Reminder '' @ i @ '' marked as completed.'', s1)
    \<and> getReminder s1 i = Some r1 \<and> id_of r1 = i
    \<and> r1 \<in> set (getAllRemindersMarkedAsCompleted s1)
    \<and> i \<notin> id_of ` set (getAllRemindersNotMarkedAsCompleted s1)
    \<and> unmarkReminderAsCompleted s1 i = Inr (''Reminder '' @ i @ '' unmarked as completed.'', s2)
    \<and> getReminder s2 i = Some r2 \<and> id_of r2 = i
    \<and> r2 \<in> set (getAllRemindersNotMarkedAsCompleted s2)
    \<and> i \<notin> id_of ` set (getAllRemindersMarkedAsCompleted s2)"
proof -
  define m1 where "m1 = assign_field (reminders s) i (\<lambda>r. r\<lparr>completed := True\<rparr>)"
  define s1 where "s1 = saveToFile (s\<lparr>reminders := m1\<rparr>)"
  define m2 where "m2 = assign_field m1 i (\<lambda>r. r\<lparr>completed := False\<rparr>)"
  define s2 where "s2 = saveToFile (s1\<lparr>reminders := m2\<rparr>)"
  have rs1: "reminders s1 = m1" and rs2: "reminders s2 = m2" by (simp_all add: s1_def s2_def)
  note one = assign_completed [OF assms, where b = True, folded m1_def]
  note two = assign_completed [OF one(3) one(4), where b = False, folded m2_def]
  from one(1) obtain r1 where r1: "Map_get m1 i = Some r1" "id_of r1 = i" "completed r1" by auto
  from two(1) obtain r2 where r2: "Map_get m2 i = Some r2" "id_of r2 = i" "\<not> completed r2" by auto
  have mark: "markReminderAsCompleted s i = Inr (''Reminder '' @ i @ '' marked as completed.'', s1)"
    using assms(2) by (simp add: markReminderAsCompleted_cases s1_def m1_def)
  have unmark: "unmarkReminderAsCompleted s1 i = Inr (''Reminder '' @ i @ '' unmarked as completed.'', s2)"
    using one(4) by (simp add: unmarkReminderAsCompleted_cases rs1 s2_def m2_def)
  have c1: "r1 \<in> set (getAllRemindersMarkedAsCompleted s1)"
    using r1 by (simp add: getAllRemindersMarkedAsCompleted_def rs1 Map_get_in_values)
  have p1: "i \<notin> id_of ` set (getAllRemindersNotMarkedAsCompleted s1)"
    using one(2) by (auto simp: getAllRemindersNotMarkedAsCompleted_def rs1)
  have p2: "r2 \<in> set (getAllRemindersNotMarkedAsCompleted s2)"
    using r2 by (simp add: getAllRemindersNotMarkedAsCompleted_def rs2 Map_get_in_values)
  have c2: "i \<notin> id_of ` set (getAllRemindersMarkedAsCompleted s2)"
    using two(2) by (auto simp: getAllRemindersMarkedAsCompleted_def rs2)
  from mark unmark r1 r2 c1 p1 p2 c2 show ?thesis
    by (simp add: getReminder_def rs1 rs2)
qed

theorem mark_then_unmark_completed_witness:
  "key_is_id (reminders two_store) \<and> Map_has (reminders two_store) ''32500000''
   \<and> (\<exists>s1 s2.
      markReminderAsCompleted two_store ''32500000'' = Inr (''Reminder 32500000 marked as completed.'', s1)
    \<and> getAllRemindersMarkedAsCompleted s1 = [dentist\<lparr>completed := True\<rparr>]
    \<and> getAllRemindersNotMarkedAsCompleted s1 = [milk]
    \<and> unmarkReminderAsCompleted s1 ''32500000'' = Inr (''Reminder 32500000 unmarked as completed.'', s2)
    \<and> getAllRemindersMarkedAsCompleted s2 = []
    \<and> getAllRemindersNotMarkedAsCompleted s2 = [milk, dentist])
   \<and> (\<exists>s1 r1 s2 r2.
      markReminderAsCompleted two_store ''32500000'' = Inr (''Reminder 32500000 marked as completed.'', s1)
    \<and> getReminder s1 ''32500000'' = Some r1 \<and> id_of r1 = ''32500000''
    \<and> r1 \<in> set (getAllRemindersMarkedAsCompleted s1)
    \<and> ''32500000'' \<notin> id_of ` set (getAllRemindersNotMarkedAsCompleted s1)
    \<and> unmarkReminderAsCompleted s1 ''32500000'' = Inr (''Reminder 32500000 unmarked as completed.'', s2)
    \<and> getReminder s2 ''32500000'' = Some r2 \<and> id_of r2 = ''32500000''
    \<and> r2 \<in> set (getAllRemindersNotMarkedAsCompleted s2)
    \<and> ''32500000'' \<notin> id_of ` set (getAllRemindersMarkedAsCompleted s2))"
proof -
  have e: "\<exists>s1 s2.
      markReminderAsCompleted two_store ''32500000'' = Inr (''Reminder 32500000 marked as completed.'', s1)
    \<and> getAllRemindersMarkedAsCompleted s1 = [dentist\<lparr>completed := True\<rparr>]
    \<and> getAllRemindersNotMarkedAsCompleted s1 = [milk]
    \<and> unmarkReminderAsCompleted s1 ''32500000'' = Inr (''Reminder 32500000 unmarked as completed.'', s2)
    \<and> getAllRemindersMarkedAsCompleted s2 = []
    \<and> getAllRemindersNotMarkedAsCompleted s2 = [milk, dentist]"
    by (simp add: markReminderAsCompleted_def unmarkReminderAsCompleted_def two_store_def
        Map_has_def Map_get_def assign_field_def getAllRemindersMarkedAsCompleted_def
        getAllRemindersNotMarkedAsCompleted_def Map_values_def milk_def dentist_def)
  from mark_then_unmark_completed [OF key_is_id_two_store Map_has_two_store]
    key_is_id_two_store Map_has_two_store e
  show ?thesis by simp
qed

subsection \<open>Updating\<close>

lemma Map_get_updated:
  assumes "Map_get m i = Some r"
  shows "Map_get (updated m i msg tm) j =
    (if j = i
     then Some (r\<lparr>message := (case msg of None \<Rightarrow> message r | Some v \<Rightarrow> if v = [] then message r else v),
                  time := (case tm of None \<Rightarrow> time r | Some v \<Rightarrow> if v = [] then time r else v)\<rparr>)
     else Map_get m j)"
  using assms
  by (auto simp: updated_def Let_def Map_get_set Map_get_assign_field truthy_def split: option.splits)

lemma keys_updated:
  assumes "Map_has m i" shows "map fst (updated m i msg tm) = map fst m"
proof -
  define m1 where "m1 = (if truthy msg then assign_field m i (\<lambda>r. r\<lparr>message := the msg\<rparr>) else m)"
  define m2 where "m2 = (if truthy tm then assign_field m1 i (\<lambda>r. r\<lparr>time := the tm\<rparr>) else m1)"
  have k: "map fst m2 = map fst m" by (simp add: m1_def m2_def keys_assign_field)
  with assms have "Map_has m2 i" by (simp add: Map_has_def)
  from keys_Map_set_has [OF this] k show ?thesis
    by (simp add: updated_def Let_def m1_def [symmetric] m2_def [symmetric])
qed

lemma Map_set_same:
  assumes "Map_ok m" "Map_get m k = Some v" shows "Map_set m k v = m"
proof -
  from assms(2) have has: "Map_has m k" by (simp add: Map_has_get)
  have "map (\<lambda>(k', v'). if k' = k then (k', v) else (k', v')) m = m"
  proof (rule map_idI)
    fix e assume e: "e \<in> set m"
    obtain k' v' where kv: "e = (k', v')" by (cases e)
    show "(case e of (k', v') \<Rightarrow> if k' = k then (k', v) else (k', v')) = e"
    proof (cases "k' = k")
      case True
      from assms(1) e have "map_of m k' = Some v'"
        unfolding kv Map_ok_def by (rule map_of_is_SomeI)
      with True assms(2) show ?thesis by (simp add: kv Map_get_def)
    next
      case False
      then show ?thesis by (simp add: kv)
    qed
  qed
  with has show ?thesis by (simp add: Map_set_def)
qed

lemma updated_nothing:
  assumes "Map_ok m" "Map_has m i" "\<not> truthy msg" "\<not> truthy tm"
  shows "updated m i msg tm = m"
proof -
  from assms(2) obtain r where r: "Map_get m i = Some r" by (rule Map_get_SomeE)
  from assms(3,4) r Map_set_same [OF assms(1) r] show ?thesis by (simp add: updated_def)
qed

text \<open>
  C6: for a key \<open>i\<close>, \<open>updateReminder\<close> returns the text \<open>Reminder <id> updated.\<close>
  and stores under \<open>i\<close> the old reminder with the message overwritten when a
  non-empty message is given, and the time overwritten when a non-empty time is
  given; a field that is omitted or the empty string keeps its value, and with
  both omitted the reminder is the same (on a map without a repeated key, the
  whole map is). The reminders under the other keys and the order of the keys do
  not change.
\<close>

theorem updateReminder_overwrites_supplied_fields:
  assumes "Map_has (reminders s) i"
  shows "\<exists>r s'. getReminder s i = Some r
    \<and> updateReminder s i msg tm = Inr (''Reminder '' @ i @ '' updated.'', s')
    \<and> getReminder s' i =
        Some (r\<lparr>message := (case msg of None \<Rightarrow> message r | Some v \<Rightarrow> if v = [] then message r else v),
                 time := (case tm of None \<Rightarrow> time r | Some v \<Rightarrow> if v = [] then time r else v)\<rparr>)
    \<and> (msg = None \<and> tm = None \<longrightarrow> getReminder s' i = Some r)
    \<and> (\<forall>j. j \<noteq> i \<longrightarrow> getReminder s' j = getReminder s j)
    \<and> map fst (reminders s') = map fst (reminders s)
    \<and> (Map_ok (reminders s) \<and> msg = None \<and> tm = None \<longrightarrow> reminders s' = reminders s)"
proof -
  from assms obtain r where r: "Map_get (reminders s) i = Some r" by (rule Map_get_SomeE)
  define s' where "s' = saveToFile (s\<lparr>reminders := updated (reminders s) i msg tm\<rparr>)"
  have rs: "reminders s' = updated (reminders s) i msg tm" by (simp add: s'_def)
  have u: "updateReminder s i msg tm = Inr (''Reminder '' @ i @ '' updated.'', s')"
    using assms by (simp add: updateReminder_cases s'_def)
  have g: "getReminder s' j =
    (if j = i
     then Some (r\<lparr>message := (case msg of None \<Rightarrow> message r | Some v \<Rightarrow> if v = [] then message r else v),
                  time := (case tm of None \<Rightarrow> time r | Some v \<Rightarrow> if v = [] then time r else v)\<rparr>)
     else getReminder s j)" for j
    by (simp add: getReminder_def rs Map_get_updated [OF r])
  have k: "map fst (reminders s') = map fst (reminders s)"
    using assms by (simp add: rs keys_updated)
  have n: "reminders s' = reminders s" if "Map_ok (reminders s)" "msg = None" "tm = None"
    using that assms by (simp add: rs updated_nothing truthy_def)
  from r u g k n show ?thesis by (simp add: getReminder_def)
qed

theorem updateReminder_overwrites_supplied_fields_witness:
  "Map_has (reminders milk_store) ''55000000''
   \<and> getReminder milk_store ''55000000'' = Some milk
   \<and> updateReminder milk_store ''55000000'' None (Some ''2030-01-01 00:00'')
       = Inr (''Reminder 55000000 updated.'',
           milk_store\<lparr>reminders := [(''55000000'', milk\<lparr>time := ''2030-01-01 00:00''\<rparr>)],
             files := [''reminders.json'' \<mapsto> Entries [(''55000000'', milk\<lparr>time := ''2030-01-01 00:00''\<rparr>)]]\<rparr>)
   \<and> (\<exists>r s'. getReminder milk_store ''55000000'' = Some r
    \<and> updateReminder milk_store ''55000000'' None (Some ''2030-01-01 00:00'')
         = Inr (''Reminder '' @ ''55000000'' @ '' updated.'', s')
    \<and> getReminder s' ''55000000'' = Some (r\<lparr>message := message r, time := ''2030-01-01 00:00''\<rparr>))"
proof -
  have a: "getReminder milk_store ''55000000'' = Some milk"
    by (simp add: getReminder_def Map_get_def milk_store_def)
  have b: "updateReminder milk_store ''55000000'' None (Some ''2030-01-01 00:00'')
       = Inr (''Reminder 55000000 updated.'',
           milk_store\<lparr>reminders := [(''55000000'', milk\<lparr>time := ''2030-01-01 00:00''\<rparr>)],
             files := [''reminders.json'' \<mapsto> Entries [(''55000000'', milk\<lparr>time := ''2030-01-01 00:00''\<rparr>)]]\<rparr>)"
    by (simp add: updateReminder_def milk_store_def Map_has_def Map_get_def truthy_def Let_def
        assign_field_def Map_set_def saveToFile_def Map_entries_def)
  from updateReminder_overwrites_supplied_fields
    [OF Map_has_milk_store, of None "Some ''2030-01-01 00:00''"] a b Map_has_milk_store
  show ?thesis by auto
qed

subsection \<open>Creating\<close>

lemma createReminder_returns:
  assumes "\<not> Map_has (reminders s) (random_id (math_random s (drawn s + k)))"
  shows "\<exists>i n j. generateUniqueId (reminders s) (math_random s) (drawn s) = Some (i, n)
    \<and> i = random_id (math_random s (drawn s + j))
    \<and> \<not> Map_has (reminders s) i
    \<and> createReminder s msg tm =
        Some (''Reminder created with ID: '' @ i,
              saveToFile (s\<lparr>drawn := n, reminders := reminders s @
                [(i, \<lparr>id_of = i, message = msg, time = tm, completed = False\<rparr>)]\<rparr>))"
proof -
  from generateUniqueId_returns [of "reminders s" "math_random s" "drawn s" k] assms obtain i n
    where g: "generateUniqueId (reminders s) (math_random s) (drawn s) = Some (i, n)" by blast
  from generateUniqueId_result [OF g] obtain j
    where j: "i = random_id (math_random s (drawn s + j))" and fresh: "\<not> Map_has (reminders s) i"
    by auto
  from g fresh have "createReminder s msg tm =
        Some (''Reminder created with ID: '' @ i,
              saveToFile (s\<lparr>drawn := n, reminders := reminders s @
                [(i, \<lparr>id_of = i, message = msg, time = tm, completed = False\<rparr>)]\<rparr>))"
    by (simp add: createReminder_def Map_set_def)
  with g j fresh show ?thesis by blast
qed

lemma free_draw_empty_store:
  "\<not> Map_has (reminders empty_store) (random_id (math_random empty_store (drawn empty_store + 0)))"
  by (simp add: empty_store_eq Map_has_def)

text \<open>
  C1: \<open>createReminder\<close> returns a message that holds the id, not the id. For
  every message and time, when some draw from the current one on gives an id
  that is not a key, \<open>createReminder\<close> returns, and its value is the text
  \<open>Reminder created with ID: \<close> followed by the id that \<open>generateUniqueId\<close>
  returned, a string of 8 decimal digits.
\<close>

theorem createReminder_returns_message:
  assumes "unit_interval (math_random s)"
    and "\<not> Map_has (reminders s) (random_id (math_random s (drawn s + k)))"
  shows "\<exists>i n s'. generateUniqueId (reminders s) (math_random s) (drawn s) = Some (i, n)
    \<and> length i = 8 \<and> list_all isDigit i
    \<and> createReminder s msg tm = Some (''Reminder created with ID: '' @ i, s')"
proof -
  from createReminder_returns [OF assms(2), of msg tm] obtain i n j s'
    where g: "generateUniqueId (reminders s) (math_random s) (drawn s) = Some (i, n)"
      and i: "i = random_id (math_random s (drawn s + j))"
      and c: "createReminder s msg tm = Some (''Reminder created with ID: '' @ i, s')"
    by blast
  from assms(1) have "is_double (math_random s (drawn s + j))"
    "0 \<le> math_random s (drawn s + j)" "math_random s (drawn s + j) < 1"
    by (simp_all add: unit_interval_def)
  from random_id_shape(1,2) [OF this] have "length i = 8" "list_all isDigit i" by (simp_all add: i)
  with g c show ?thesis by blast
qed

theorem createReminder_returns_message_witness:
  "unit_interval (math_random empty_store)
   \<and> \<not> Map_has (reminders empty_store) (random_id (math_random empty_store (drawn empty_store + 0)))
   \<and> (\<exists>i n s'. generateUniqueId (reminders empty_store) (math_random empty_store) (drawn empty_store)
         = Some (i, n)
     \<and> length i = 8 \<and> list_all isDigit i
     \<and> createReminder empty_store ''buy milk'' ''2024-01-01 10:00''
         = Some (''Reminder created with ID: '' @ i, s'))"
proof -
  have u: "unit_interval (math_random empty_store)"
    by (simp add: empty_store_eq unit_interval_halves)
  from createReminder_returns_message [OF u free_draw_empty_store] u free_draw_empty_store
  show ?thesis by blast
qed

text \<open>
  C1 as the specification words it does not hold, since the value is not the id
  itself: in the store started without a file, with
  \<open>Math.random()\<close> returning one half, the id generated is \<open>55000000\<close> and the value
  returned is the text \<open>Reminder created with ID: 55000000\<close>.
\<close>

theorem createReminder_returns_the_id_counterexample:
  "createReminder empty_store ''buy milk'' ''2024-01-01 10:00''
     = Some (''Reminder created with ID: 55000000'', milk_store)
   \<and> generateUniqueId (reminders empty_store) (math_random empty_store) (drawn empty_store)
     = Some (''55000000'', 1)
   \<and> ''Reminder created with ID: 55000000'' \<noteq> ''55000000''"
  by (simp add: createReminder_empty_store generateUniqueId_empty_store)

text \<open>
  C2: for every message and time, when some draw from the current one on gives
  an id that is not a key, \<open>createReminder\<close> returns the text
  \<open>Reminder created with ID: \<close> followed by an id, and \<open>getReminder\<close> on that id in
  the state it leaves returns the reminder with that id, the given message, the
  given time as it was given, and \<open>completed = false\<close>.
\<close>

theorem createReminder_then_getReminder:
  assumes "\<not> Map_has (reminders s) (random_id (math_random s (drawn s + k)))"
  shows "\<exists>i s'. createReminder s msg tm = Some (''Reminder created with ID: '' @ i, s')
    \<and> getReminder s' i = Some \<lparr>id_of = i, message = msg, time = tm, completed = False\<rparr>"
proof -
  from createReminder_returns [OF assms, of msg tm] obtain i n
    where fresh: "\<not> Map_has (reminders s) i"
      and c: "createReminder s msg tm =
        Some (''Reminder created with ID: '' @ i,
              saveToFile (s\<lparr>drawn := n, reminders := reminders s @
                [(i, \<lparr>id_of = i, message = msg, time = tm, completed = False\<rparr>)]\<rparr>))"
    by blast
  from fresh have "map_of (reminders s) i = None" by (simp add: Map_has_def map_of_eq_None_iff)
  then have "getReminder (saveToFile (s\<lparr>drawn := n, reminders := reminders s @
                [(i, \<lparr>id_of = i, message = msg, time = tm, completed = False\<rparr>)]\<rparr>)) i
      = Some \<lparr>id_of = i, message = msg, time = tm, completed = False\<rparr>"
    by (simp add: getReminder_def Map_get_def map_add_def)
  with c show ?thesis by blast
qed

theorem createReminder_then_getReminder_witness:
  "\<not> Map_has (reminders empty_store) (random_id (math_random empty_store (drawn empty_store + 0)))
   \<and> createReminder empty_store ''buy milk'' ''2024-01-01 10:00''
       = Some (''Reminder created with ID: 55000000'', milk_store)
   \<and> getReminder milk_store ''55000000''
       = Some \<lparr>id_of = ''55000000'', message = ''buy milk'', time = ''2024-01-01 10:00'', completed = False\<rparr>
   \<and> (\<exists>i s'. createReminder empty_store ''buy milk'' ''2024-01-01 10:00''
         = Some (''Reminder created with ID: '' @ i, s')
     \<and> getReminder s' i
         = Some \<lparr>id_of = i, message = ''buy milk'', time = ''2024-01-01 10:00'', completed = False\<rparr>)"
proof -
  have g: "getReminder milk_store ''55000000''
       = Some \<lparr>id_of = ''55000000'', message = ''buy milk'', time = ''2024-01-01 10:00'', completed = False\<rparr>"
    by (simp add: getReminder_def Map_get_def milk_store_def milk_def)
  from createReminder_then_getReminder [OF free_draw_empty_store, of "''buy milk''" "''2024-01-01 10:00''"]
    free_draw_empty_store createReminder_empty_store g
  show ?thesis by blast
qed

subsection \<open>Persistence round trip\<close>

lemma reminders_restart: "reminders (restart s rnd n) = reminders (loadFromFile (s\<lparr>reminders := []\<rparr>))"
  by (simp add: restart_def constructor_def loadFromFile_def split: option.splits contents.splits)

lemma in_sync_saveToFile: "Map_ok (reminders s) \<Longrightarrow> in_sync (saveToFile s)"
  by (simp add: in_sync_def loadFromFile_def saveToFile_def Map_new_entries)

lemma in_sync_constructor: "in_sync (constructor fname fs rnd n)"
  by (simp add: in_sync_def constructor_def loadFromFile_def split: option.splits contents.splits)

lemma Map_ok_Nil: "Map_ok []"
  by (simp add: Map_ok_def)

lemma Map_ok_constructor: "Map_ok (reminders (constructor fname fs rnd n))"
  by (simp add: constructor_def loadFromFile_def Map_ok_new Map_ok_Nil split: option.splits contents.splits)

lemma Map_ok_updated: "Map_ok m \<Longrightarrow> Map_has m i \<Longrightarrow> Map_ok (updated m i msg tm)"
  by (simp add: Map_ok_def keys_updated)

lemma Map_ok_snoc: "Map_ok m \<Longrightarrow> \<not> Map_has m k \<Longrightarrow> Map_ok (m @ [(k, v)])"
  by (simp add: Map_ok_def Map_has_def)

lemma Map_ok_filter: "Map_ok m \<Longrightarrow> Map_ok (filter P m)"
  by (simp add: Map_ok_def distinct_map_filter)

lemma savedI: "s' = saveToFile t \<Longrightarrow> Map_ok (reminders t) \<Longrightarrow> \<exists>t. s' = saveToFile t \<and> Map_ok (reminders t)"
  by blast

text \<open>What a call that returns leaves: the state itself, or a saved state with a proper map.\<close>

lemma call_shape:
  assumes "Map_ok (reminders s)" "call s op = Some (Inr (a, s'))"
  shows "(\<not> successful_mutation s op \<and> s' = s)
    \<or> (successful_mutation s op \<and> (\<exists>t. s' = saveToFile t \<and> Map_ok (reminders t)))"
proof (cases op)
  case (CreateReminder msg tm)
  with assms(2) obtain out where "createReminder s msg tm = Some (out, s')"
    by (auto split: option.splits)
  from createReminder_cases [OF this] obtain i n where
    "\<not> Map_has (reminders s) i"
    "s' = saveToFile (s\<lparr>drawn := n, reminders := reminders s @
                 [(i, \<lparr>id_of = i, message = msg, time = tm, completed = False\<rparr>)]\<rparr>)"
    by blast
  with assms(1) have "\<exists>t. s' = saveToFile t \<and> Map_ok (reminders t)"
    by - (rule savedI, assumption, simp add: Map_ok_snoc)
  with CreateReminder show ?thesis by simp
next
  case (MarkReminderAsCompleted i)
  show ?thesis
  proof (cases "Map_has (reminders s) i")
    case True
    with assms MarkReminderAsCompleted
    have "s' = saveToFile (s\<lparr>reminders := assign_field (reminders s) i (\<lambda>r. r\<lparr>completed := True\<rparr>)\<rparr>)"
      by (simp add: returned_def markReminderAsCompleted_cases)
    with assms(1) have "\<exists>t. s' = saveToFile t \<and> Map_ok (reminders t)"
      by - (rule savedI, assumption, simp add: Map_ok_assign_field)
    with True MarkReminderAsCompleted show ?thesis by simp
  next
    case False
    with assms MarkReminderAsCompleted show ?thesis
      by (simp add: returned_def markReminderAsCompleted_cases)
  qed
next
  case (UnmarkReminderAsCompleted i)
  show ?thesis
  proof (cases "Map_has (reminders s) i")
    case True
    with assms UnmarkReminderAsCompleted
    have "s' = saveToFile (s\<lparr>reminders := assign_field (reminders s) i (\<lambda>r. r\<lparr>completed := False\<rparr>)\<rparr>)"
      by (simp add: returned_def unmarkReminderAsCompleted_cases)
    with assms(1) have "\<exists>t. s' = saveToFile t \<and> Map_ok (reminders t)"
      by - (rule savedI, assumption, simp add: Map_ok_assign_field)
    with True UnmarkReminderAsCompleted show ?thesis by simp
  next
    case False
    with assms UnmarkReminderAsCompleted show ?thesis
      by (simp add: returned_def unmarkReminderAsCompleted_cases)
  qed
next
  case (UpdateReminder i msg tm)
  show ?thesis
  proof (cases "Map_has (reminders s) i")
    case True
    with assms UpdateReminder
    have "s' = saveToFile (s\<lparr>reminders := updated (reminders s) i msg tm\<rparr>)"
      by (simp add: returned_def updateReminder_cases)
    with assms(1) True have "\<exists>t. s' = saveToFile t \<and> Map_ok (reminders t)"
      by - (rule savedI, assumption, simp add: Map_ok_updated)
    with True UpdateReminder show ?thesis by simp
  next
    case False
    with assms UpdateReminder show ?thesis
      by (simp add: returned_def updateReminder_cases)
  qed
next
  case (RemoveReminder i)
  show ?thesis
  proof (cases "Map_has (reminders s) i")
    case True
    with assms RemoveReminder
    have "s' = saveToFile (s\<lparr>reminders := filter (\<lambda>(k, v). k \<noteq> i) (reminders s)\<rparr>)"
      by (simp add: returned_def removeReminder_cases)
    with assms(1) have "\<exists>t. s' = saveToFile t \<and> Map_ok (reminders t)"
      by - (rule savedI, assumption, simp add: Map_ok_filter)
    with True RemoveReminder show ?thesis by simp
  next
    case False
    with assms RemoveReminder show ?thesis
      by (simp add: returned_def removeReminder_cases)
  qed
qed (use assms in auto)

lemma call_Map_ok:
  assumes "Map_ok (reminders s)" "call s op = Some (Inr (a, s'))"
  shows "Map_ok (reminders s')"
  using call_shape [OF assms] assms(1) by auto

lemma call_in_sync:
  assumes "Map_ok (reminders s)" "in_sync s" "call s op = Some (Inr (a, s'))"
  shows "in_sync s'"
  using call_shape [OF assms(1,3)] assms(2) by (auto simp: in_sync_saveToFile)

lemma run_in_sync:
  "Map_ok (reminders s) \<Longrightarrow> in_sync s \<Longrightarrow> run s ops = Some s' \<Longrightarrow> Map_ok (reminders s') \<and> in_sync s'"
proof (induction ops arbitrary: s)
  case Nil
  then show ?case by simp
next
  case (Cons op ops)
  from Cons.prems(3) obtain a s1 where c: "call s op = Some (Inr (a, s1))" and r: "run s1 ops = Some s'"
    by (auto split: option.splits sum.splits)
  from call_Map_ok [OF Cons.prems(1) c] call_in_sync [OF Cons.prems(1,2) c] r
  show ?case by (rule Cons.IH)
qed

text \<open>
  C4: take any file system, any sequence of calls on the store the constructor
  made from it, and the state they reach. Starting the program again on the files
  of that state gives a store with the same map, so \<open>getAllReminders\<close> returns the
  same reminders in the same order. After every successful mutation from that
  state the file holds exactly the entries of the map, and starting again on it
  gives the same list.
\<close>

theorem persistence_round_trip:
  assumes "run (constructor fname fs rnd n) ops = Some s"
  shows "reminders (restart s rnd' n') = reminders s
    \<and> getAllReminders (restart s rnd' n') = getAllReminders s
    \<and> (successful_mutation s op \<and> call s op = Some (Inr (a, s')) \<longrightarrow>
         files s' (filename s') = Some (Entries (Map_entries (reminders s')))
         \<and> getAllReminders (restart s' rnd' n') = getAllReminders s')"
proof -
  from run_in_sync [OF Map_ok_constructor in_sync_constructor assms]
  have ok: "Map_ok (reminders s)" and sync: "in_sync s" by simp_all
  from sync have r: "reminders (restart s rnd' n') = reminders s"
    by (simp add: reminders_restart in_sync_def)
  have "files s' (filename s') = Some (Entries (Map_entries (reminders s')))
         \<and> getAllReminders (restart s' rnd' n') = getAllReminders s'"
    if m: "successful_mutation s op" and c: "call s op = Some (Inr (a, s'))"
  proof -
    from call_shape [OF ok c] m obtain t where t: "s' = saveToFile t" by auto
    from call_in_sync [OF ok sync c] have "reminders (restart s' rnd' n') = reminders s'"
      by (simp add: reminders_restart in_sync_def)
    with t show ?thesis by (simp add: getAllReminders_def)
  qed
  with r show ?thesis by (simp add: getAllReminders_def)
qed

lemma call_mark_milk_store:
  "call milk_store (MarkReminderAsCompleted ''55000000'')
     = Some (Inr (Text ''Reminder 55000000 marked as completed.'', milk_done_store))"
  by (simp add: returned_def markReminderAsCompleted_def milk_store_def milk_done_store_def
      Map_has_def Map_get_def assign_field_def saveToFile_def Map_entries_def)

theorem persistence_round_trip_witness:
  "run (constructor ''reminders.json'' Map.empty halves 0)
      [CreateReminder ''buy milk'' ''2024-01-01 10:00''] = Some milk_store
   \<and> reminders (restart milk_store halves 0) = reminders milk_store
   \<and> getAllReminders (restart milk_store halves 0) = [milk]
   \<and> successful_mutation milk_store (MarkReminderAsCompleted ''55000000'')
   \<and> call milk_store (MarkReminderAsCompleted ''55000000'')
       = Some (Inr (Text ''Reminder 55000000 marked as completed.'', milk_done_store))
   \<and> files milk_done_store (filename milk_done_store)
       = Some (Entries (Map_entries (reminders milk_done_store)))
   \<and> getAllReminders (restart milk_done_store halves 0) = [milk\<lparr>completed := True\<rparr>]"
proof -
  have a: "run (constructor ''reminders.json'' Map.empty halves 0)
      [CreateReminder ''buy milk'' ''2024-01-01 10:00''] = Some milk_store"
    using createReminder_empty_store by (simp add: empty_store_def)
  have b: "successful_mutation milk_store (MarkReminderAsCompleted ''55000000'')"
    by (simp add: Map_has_milk_store)
  have c: "getAllReminders milk_store = [milk]" "getAllReminders milk_done_store = [milk\<lparr>completed := True\<rparr>]"
    by (simp_all add: getAllReminders_def Map_values_def milk_store_def milk_done_store_def)
  from persistence_round_trip [OF a, of halves 0 "MarkReminderAsCompleted ''55000000''"
      "Text ''Reminder 55000000 marked as completed.''" milk_done_store]
    a b c call_mark_milk_store
  show ?thesis by simp
qed

subsection \<open>Reminders due\<close>

lemma startOf_day_eq: "startOf_day t = 86400000 * day_of t"
  by (simp add: startOf_day_def day_of_def minus_mod_eq_mult_div)

lemma isSameOrBefore_day_start:
  "isSameOrBefore_day (Some t) (Some (startOf_day now)) = (day_of t \<le> day_of now)"
  unfolding isSameOrBefore_day_def isSame_day_def isBefore_day_def endOf_day_def startOf_day_eq
  by auto

lemma isSameOrBefore_day_invalid: "isSameOrBefore_day None input = False"
  by (simp add: isSameOrBefore_day_def isSame_day_def isBefore_day_def)

lemma isSameOrBefore_day_due_by:
  "isSameOrBefore_day (moment (time r)) (Some (startOf_day now)) = due_by moment now r"
  by (cases "moment (time r)")
    (simp_all add: due_by_def isSameOrBefore_day_invalid isSameOrBefore_day_start)

text \<open>
  C8: \<open>getAllRemindersDueByToday\<close> returns, in the order of \<open>getAllReminders\<close>,
  exactly the reminders whose time is a valid moment on a calendar day on or
  before the current day; a reminder whose time is not valid is left out. On a
  store that holds one reminder dated the day before and one dated the day
  after, it returns exactly the first.
\<close>

theorem getAllRemindersDueByToday_filter:
  "getAllRemindersDueByToday moment now s = filter (due_by moment now) (getAllReminders s)
   \<and> (reminders s = [(a, ra), (b, rb)]
        \<and> moment (time ra) = Some ta \<and> day_of ta = day_of now - 1
        \<and> moment (time rb) = Some tb \<and> day_of tb = day_of now + 1
      \<longrightarrow> getAllRemindersDueByToday moment now s = [ra])"
proof -
  have f: "getAllRemindersDueByToday moment now s = filter (due_by moment now) (getAllReminders s)"
    by (simp add: getAllRemindersDueByToday_def getAllReminders_def isSameOrBefore_day_due_by)
  have "getAllRemindersDueByToday moment now s = [ra]"
    if "reminders s = [(a, ra), (b, rb)]" "moment (time ra) = Some ta" "day_of ta = day_of now - 1"
      "moment (time rb) = Some tb" "day_of tb = day_of now + 1"
    using that by (simp add: f getAllReminders_def Map_values_def due_by_def)
  with f show ?thesis by blast
qed

theorem getAllRemindersDueByToday_filter_witness:
  "reminders two_store = [(''55000000'', milk), (''32500000'', dentist)]
   \<and> moment_example (time milk) = Some 1704103200000
   \<and> day_of 1704103200000 = day_of 1704196800000 - 1
   \<and> moment_example (time dentist) = Some 1704276000000
   \<and> day_of 1704276000000 = day_of 1704196800000 + 1
   \<and> getAllRemindersDueByToday moment_example 1704196800000 two_store = [milk]
   \<and> getAllRemindersDueByToday moment_example 1704196800000 two_store
       = filter (due_by moment_example 1704196800000) (getAllReminders two_store)"
proof -
  have a: "reminders two_store = [(''55000000'', milk), (''32500000'', dentist)]"
    by (simp add: two_store_def)
  have b: "moment_example (time milk) = Some 1704103200000"
    "moment_example (time dentist) = Some 1704276000000"
    by (simp_all add: moment_example_def milk_def dentist_def)
  have c: "day_of 1704103200000 = day_of 1704196800000 - 1"
    "day_of 1704276000000 = day_of 1704196800000 + 1"
    by (simp_all add: day_of_def)
  from getAllRemindersDueByToday_filter
    [of moment_example 1704196800000 two_store "''55000000''" milk "''32500000''" dentist
      1704103200000 1704276000000] a b c
  show ?thesis by blast
qed

end
